theory Spec2Isabelle
  imports Complex_Main "HOL-Library.Product_Lexorder" "HOL-Library.Word"
begin

section \<open>Clock times and the sleep-interval calculator\<close>

text \<open>
  The cleaning script represents a clock time as a pandas \<^verbatim>\<open>Timedelta\<close>: a signed 64-bit
  count of nanoseconds since midnight, with \<^verbatim>\<open>NaT\<close> for a missing entry. A cell of a
  time column is therefore an \<open>int option\<close>, and a cell of a float column a \<open>rat option\<close>
  (\<open>None\<close> is \<^verbatim>\<open>NaN\<close>). None of the values that arise comes near the 64-bit limits.

  A duration in hours is an IEEE double in the script and an exact rational here. The
  durations are compared with whole numbers of hours only (0, 24 and the floor \<open>min_12\<close>,
  which the script sets to 2 or 3), and a quotient of a whole number of nanoseconds by an
  hour that is a whole number is exact in doubles as well, so these comparisons come out
  the same. The conversion of a duration back to a \<^verbatim>\<open>Timedelta\<close>, where a double is
  rounded, is not computed exactly by pandas; it is a parameter of the model (see
  \<open>Timedelta_accurate\<close> below).

  The two series passed to \<^verbatim>\<open>calc_sleep_time\<close> are always two columns of one data frame,
  so a pair of aligned series is a list of rows \<open>(bed_time, awake_time)\<close>. The columns of
  the script have at least one row.
\<close>

type_synonym timedelta = int

datatype error = ValueError | AssertionError | AttributeError

definition Timedelta_hours :: "int \<Rightarrow> timedelta" where
  "Timedelta_hours h = h * 3600000000000"

definition Timedelta_min :: "int \<Rightarrow> timedelta" where
  "Timedelta_min m = m * 60000000000"

definition Timedelta_sec :: "int \<Rightarrow> timedelta" where
  "Timedelta_sec s = s * 1000000000"

text \<open>The time of day that line 615 of the script produces for the string \<^verbatim>\<open>H:MM\<close>.\<close>

definition clock :: "int \<Rightarrow> int \<Rightarrow> timedelta" where
  "clock h m = Timedelta_hours h + Timedelta_min m"

text \<open>\<^verbatim>\<open>s.between(lo, hi) | s.isna()\<close> on one cell: both ends are inclusive.\<close>

definition between_or_na :: "'a::linorder \<Rightarrow> 'a \<Rightarrow> 'a option \<Rightarrow> bool" where
  "between_or_na lo hi x = (case x of None \<Rightarrow> True | Some v \<Rightarrow> lo \<le> v \<and> v \<le> hi)"

text \<open>\<^verbatim>\<open>(awake_time - bed_time).apply(lambda x: x.total_seconds()/3600)\<close> on one row.\<close>

definition total_hours :: "timedelta option \<Rightarrow> timedelta option \<Rightarrow> rat option" where
  "total_hours awake bed =
     (case (awake, bed) of
        (Some a, Some b) \<Rightarrow> Some (of_int (a - b) / 3600000000000)
      | _ \<Rightarrow> None)"

text \<open>\<^verbatim>\<open>st[st<0] += 24\<close>: a comparison with \<^verbatim>\<open>NaN\<close> is false.\<close>

definition circular :: "rat option \<Rightarrow> rat option" where
  "circular st = (case st of None \<Rightarrow> None | Some h \<Rightarrow> if h < 0 then Some (h + 24) else Some h)"

text \<open>
  The window shared by lines 107--110 and 121--124: both times at or after 1:00 and
  before 13:00. A comparison with \<^verbatim>\<open>NaT\<close> is false.
\<close>

definition first_half :: "timedelta option \<Rightarrow> timedelta option \<Rightarrow> bool" where
  "first_half bed awake =
     (case (bed, awake) of
        (Some b, Some a) \<Rightarrow>
           a < Timedelta_hours 13 \<and> b < Timedelta_hours 13
           \<and> a \<ge> Timedelta_hours 1 \<and> b \<ge> Timedelta_hours 1
      | _ \<Rightarrow> False)"

text \<open>Lines 106--110: the rows on which 12 hours are subtracted.\<close>

definition idx_12 :: "timedelta option \<times> timedelta option \<Rightarrow> bool" where
  "idx_12 row =
     (case row of
        (Some b, Some a) \<Rightarrow> a < b \<and> first_half (Some b) (Some a)
      | _ \<Rightarrow> False)"

text \<open>Lines 120--124: the rows whose duration is made missing.\<close>

definition idx_min :: "rat \<Rightarrow> rat option \<Rightarrow> timedelta option \<times> timedelta option \<Rightarrow> bool" where
  "idx_min min_12 st row =
     (case st of
        None \<Rightarrow> False
      | Some h \<Rightarrow> h < min_12 \<and> first_half (fst row) (snd row))"

text \<open>
  The function returns the series of durations alone, or with the series \<^verbatim>\<open>corr12\<close> beside
  it when \<open>correct_12\<close> is on. Line 112 creates \<^verbatim>\<open>corr12\<close> as
  \<^verbatim>\<open>pd.Series(index=st.index, dtype=int)\<close>, a series without data, and line 113 sets it to 1
  on the corrected rows. What the other rows hold is what pandas fills a series without data
  with, and that is not the same in every version of pandas: from pandas 1.4 on the series
  is a float series filled with \<^verbatim>\<open>NaN\<close>, whatever \<^verbatim>\<open>dtype\<close> asks for; before 1.4 it was an
  integer series filled with 0 (the quality-control scripts of the two earlier releases
  assert that every flag is 0 or 1). The fill value is the parameter \<open>na_fill\<close> of the
  model: \<open>None\<close> (\<^verbatim>\<open>NaN\<close>) for pandas 1.4 and later, \<open>Some 0\<close> for the versions before. A
  cell of \<^verbatim>\<open>corr12\<close> is a \<open>rat option\<close> like the cell of any float column.
\<close>

datatype sleep_time = St "rat option list" | StCorr "rat option list" "rat option list"

definition calc_sleep_time ::
  "rat option \<Rightarrow> (timedelta option \<times> timedelta option) list \<Rightarrow> bool \<Rightarrow> rat \<Rightarrow> error + sleep_time" where
  "calc_sleep_time na_fill rows correct_12 min_12 =
     (if \<not> list_all (\<lambda>(bed, awake). between_or_na 0 (Timedelta_hours 24) bed) rows
        then Inl ValueError
      else if \<not> list_all (\<lambda>(bed, awake). between_or_na 0 (Timedelta_hours 24) awake) rows
        then Inl ValueError
      else
        let st0 = map (\<lambda>(bed, awake). circular (total_hours awake bed)) rows;
            idx = map idx_12 rows;
            st1 = (if correct_12
                   then map (\<lambda>(s, i). if i then map_option (\<lambda>h. h + (- 12)) s else s) (zip st0 idx)
                   else st0);
            corr12 = map (\<lambda>i. if i then Some 1 else na_fill) idx
        in if \<not> list_all (between_or_na 0 24) st1 then Inl AssertionError
           else
             let st2 = (if min_12 \<noteq> 0
                        then map (\<lambda>(s, row). if idx_min min_12 s row then None else s) (zip st1 rows)
                        else st1)
             in Inr (if correct_12 then StCorr st2 corr12 else St st2))"

text \<open>
  The series of durations in what \<open>calc_sleep_time\<close> returns, with or without the series
  of flags beside it; \<open>None\<close> when the call raised.
\<close>

definition durations :: "error + sleep_time \<Rightarrow> rat option list option" where
  "durations res =
     (case res of
        Inl e \<Rightarrow> None
      | Inr (St st) \<Rightarrow> Some st
      | Inr (StCorr st corr12) \<Rightarrow> Some st)"

text \<open>
  \<^verbatim>\<open>sleep_duration.apply(pd.Timedelta, unit='hours')\<close>: hours back to nanoseconds, \<^verbatim>\<open>NaN\<close>
  to \<^verbatim>\<open>NaT\<close>. \<^verbatim>\<open>pd.Timedelta\<close> on a double does not compute the exact product: pandas
  splits the double into its whole hours and a fraction and rounds the fraction to a fixed
  number of decimals before it multiplies, so the result can be off the exact count of
  nanoseconds by something of the order of a microsecond. The constructor is therefore the
  parameter \<open>Timedelta\<close> of \<open>hours_to_Timedelta\<close> and of \<open>calc_sleep_midpoint\<close>, a function
  from the duration in hours to nanoseconds. \<open>Timedelta_accurate\<close> is all that the theorems
  assume of it: on a duration between 0 and 24 hours the result is not negative and within a
  millisecond of the exact value. \<open>Timedelta_exact\<close>, the exact product, is one such
  function, used where a concrete one is needed.
\<close>

definition hours_to_Timedelta :: "(rat \<Rightarrow> timedelta) \<Rightarrow> rat option \<Rightarrow> timedelta option" where
  "hours_to_Timedelta Timedelta d = map_option Timedelta d"

definition Timedelta_exact :: "rat \<Rightarrow> timedelta" where
  "Timedelta_exact h = \<lfloor>h * 3600000000000\<rfloor>"

definition Timedelta_accurate :: "(rat \<Rightarrow> timedelta) \<Rightarrow> bool" where
  "Timedelta_accurate Timedelta =
     (\<forall>h. 0 \<le> h \<and> h \<le> 24 \<longrightarrow>
          0 \<le> Timedelta h \<and> \<bar>Timedelta h - \<lfloor>h * 3600000000000\<rfloor>\<bar> \<le> 1000000)"

text \<open>
  \<^verbatim>\<open>.round('min')\<close>: pandas rounds to the nearest multiple of a minute and breaks a tie
  towards the even multiple.
\<close>

definition round_min :: "timedelta \<Rightarrow> timedelta" where
  "round_min t =
     (let unit = 60000000000; quotient = t div unit; remainder = t mod unit
      in if remainder > unit div 2 \<or> (remainder = unit div 2 \<and> odd quotient)
         then (quotient + 1) * unit else quotient * unit)"

text \<open>
  \<^verbatim>\<open>corr12.apply(bool)\<close> on one cell (line 140): Python's \<^verbatim>\<open>bool\<close> of a number is false for
  zero and true for everything else, \<^verbatim>\<open>NaN\<close> included.
\<close>

definition py_bool :: "rat option \<Rightarrow> bool" where
  "py_bool c = (c \<noteq> Some 0)"

text \<open>
  Lines 133--156. With \<open>correct_12\<close> off, \<open>calc_sleep_time\<close> returns one series, and the
  tuple assignment of line 139 unpacks that series itself: a \<^verbatim>\<open>ValueError\<close> unless it has
  exactly two cells, and then \<^verbatim>\<open>corr12\<close> is a float, which has no \<^verbatim>\<open>apply\<close>.
  The half duration is a non-negative count of nanoseconds, so the integer division of
  numpy's \<^verbatim>\<open>timedelta64 / 2\<close> is \<open>div\<close>.

  Line 140 turns the flags into booleans. When the flags of the uncorrected rows are
  \<^verbatim>\<open>NaN\<close> (\<open>na_fill = None\<close>) every flag becomes true: then line 144 subtracts 24 hours
  from no row, and line 146 subtracts 12 hours from every midpoint at or after 13:00.

  Line 142 converts the durations one by one and pandas chooses the type of the resulting
  series from its values; the model is of the case where that is a series of
  \<^verbatim>\<open>Timedelta\<close>, which it is when at least one duration is not missing.
\<close>

definition calc_sleep_midpoint ::
  "rat option \<Rightarrow> (rat \<Rightarrow> timedelta) \<Rightarrow> (timedelta option \<times> timedelta option) list \<Rightarrow> bool \<Rightarrow> rat
     \<Rightarrow> error + timedelta option list" where
  "calc_sleep_midpoint na_fill Timedelta rows correct_12 min_12 =
     (case calc_sleep_time na_fill rows correct_12 min_12 of
        Inl e \<Rightarrow> Inl e
      | Inr (St st) \<Rightarrow> if length st = 2 then Inl AttributeError else Inl ValueError
      | Inr (StCorr sleep_duration corr12f) \<Rightarrow>
          let corr12 = map py_bool corr12f;
              mid0 = map (\<lambda>((bed, awake), d).
                            case (bed, hours_to_Timedelta Timedelta d) of
                              (Some b, Some t) \<Rightarrow> Some (b + t div 2)
                            | _ \<Rightarrow> None) (zip rows sleep_duration);
              mid1 = map (\<lambda>(m, c). case m of
                                      None \<Rightarrow> None
                                    | Some t \<Rightarrow> if t \<ge> Timedelta_hours 24 \<and> \<not> c
                                               then Some (t + - Timedelta_hours 24) else Some t)
                         (zip mid0 corr12);
              mid2 = map (\<lambda>(m, c). case m of
                                      None \<Rightarrow> None
                                    | Some t \<Rightarrow> if t \<ge> Timedelta_hours 13 \<and> c
                                               then Some (t + - Timedelta_hours 12) else Some t)
                         (zip mid1 corr12);
              sleep_midpoint = map (map_option round_min) mid2
          in if \<not> list_all (between_or_na 0 (Timedelta_hours 24)) sleep_midpoint
             then Inl AssertionError
             else Inr sleep_midpoint)"

section \<open>Identity reconciliation\<close>

text \<open>
  Subject identifiers are strings. The script trims and upper-cases them with Python's
  \<^verbatim>\<open>str.strip\<close> and \<^verbatim>\<open>str.upper\<close> and removes the zero-width space U+200B. The model
  has byte strings (UTF-8): the case mapping and the white space are those of ASCII, which is
  what the study's identifiers are made of, and U+200B is its three-byte encoding. No
  theorem below depends on how a byte outside ASCII is treated.
\<close>

definition upper_char :: "char \<Rightarrow> char" where
  "upper_char c = (let n = (of_char c :: nat) in if 97 \<le> n \<and> n \<le> 122 then char_of (n - 32) else c)"

definition isspace :: "char \<Rightarrow> bool" where
  "isspace c = (of_char c \<in> {9, 10, 11, 12, 13, 28, 29, 30, 31, 32 :: nat})"

definition str_strip :: "string \<Rightarrow> string" where
  "str_strip s = rev (dropWhile isspace (rev (dropWhile isspace s)))"

definition str_upper :: "string \<Rightarrow> string" where
  "str_upper s = map upper_char s"

fun remove_zwsp :: "string \<Rightarrow> string" where
  "remove_zwsp (a # b # c # s) =
     (if of_char a = (226::nat) \<and> of_char b = (128::nat) \<and> of_char c = (139::nat)
      then remove_zwsp s else a # remove_zwsp (b # c # s))"
| "remove_zwsp s = s"

text \<open>
  A raw table is a list of rows: the cell of the subject-identifier column (\<open>None\<close> when it
  is empty) and the rest of the row. The steps below are those of the section
  ``subject corrections and exclusions'' of the script, one definition for each statement
  that the script repeats for every table.
\<close>

text \<open>
  Lines 209--242: \<^verbatim>\<open>dropna(subset=...)\<close>. The subset is the identifier alone for the
  one-time tables and the identifier with \<^verbatim>\<open>todays_date\<close> for the daily table; \<open>required\<close>
  says whether the other required cells of a row are present.
\<close>

definition dropna_subset :: "('a \<Rightarrow> bool) \<Rightarrow> (string option \<times> 'a) list \<Rightarrow> (string \<times> 'a) list" where
  "dropna_subset required t =
     List.map_filter (\<lambda>(cell, x). case cell of
                                     None \<Rightarrow> None
                                   | Some s \<Rightarrow> if required x then Some (s, x) else None) t"

text \<open>Lines 244--255.\<close>

definition strip_upper :: "(string \<times> 'a) list \<Rightarrow> (string \<times> 'a) list" where
  "strip_upper t = map (\<lambda>(s, x). (str_upper (str_strip s), x)) t"

text \<open>Lines 260--261, for the daily table and round 6 only (\<open>wska2\<close> is true for these).\<close>

definition drop_WSKA2_LSAS :: "bool \<Rightarrow> (string \<times> 'a) list \<Rightarrow> (string \<times> 'a) list" where
  "drop_WSKA2_LSAS wska2 t = (if wska2 then filter (\<lambda>(s, x). s \<noteq> ''WSKA2_LSAS'') t else t)"

text \<open>Lines 263--276.\<close>

definition excl_subs :: "string list" where
  "excl_subs = [''54DLL'', ''A2YXX'', ''7QU6Y'', ''PMMTT'', ''QMP33'']"

definition exclude :: "(string \<times> 'a) list \<Rightarrow> (string \<times> 'a) list" where
  "exclude t = filter (\<lambda>(s, x). \<not> (s \<in> set excl_subs)) t"

text \<open>Lines 279--290.\<close>

definition replace_zwsp :: "(string \<times> 'a) list \<Rightarrow> (string \<times> 'a) list" where
  "replace_zwsp t = map (\<lambda>(s, x). (remove_zwsp s, x)) t"

text \<open>
  Lines 303--314: \<^verbatim>\<open>Series.replace\<close> with the dictionary of corrections, whose keys and
  values were trimmed and upper-cased when it was loaded (lines 297--301). A value that is a
  key is replaced by the entry, once; any other value stays.
\<close>

definition replace_dict :: "(string \<rightharpoonup> string) \<Rightarrow> string \<Rightarrow> string" where
  "replace_dict d s = (case d s of None \<Rightarrow> s | Some c \<Rightarrow> c)"

definition apply_corrections :: "(string \<rightharpoonup> string) \<Rightarrow> (string \<times> 'a) list \<Rightarrow> (string \<times> 'a) list" where
  "apply_corrections sub_ids_corrections t = map (\<lambda>(s, x). (replace_dict sub_ids_corrections s, x)) t"

text \<open>
  Lines 292--295 and 331--363. The roster file has two columns, the identifier and the
  subject number; a roster is the list of its rows, and a file that can be read has at
  least one. The subject number is a 64-bit integer, as \<^verbatim>\<open>read_csv\<close> gives a column of
  whole numbers, so a subject number is a \<open>64 word\<close>.

  Line 295 applies \<^verbatim>\<open>squeeze()\<close> to the identifier column. On a column of one row
  \<^verbatim>\<open>squeeze()\<close> gives the cell itself, not a series, and the \<^verbatim>\<open>.astype\<close> or \<^verbatim>\<open>.str\<close> that
  follows raises \<^verbatim>\<open>AttributeError\<close>: with a roster of exactly one row the script stops
  there.
\<close>

type_synonym int64 = "64 word"

definition valid_sub_ids :: "(string \<times> int64) list \<Rightarrow> error + string list" where
  "valid_sub_ids roster =
     (if length roster = 1 then Inl AttributeError
      else Inr (map (\<lambda>(i, n). str_upper (str_strip i)) roster))"

definition keep_valid :: "string list \<Rightarrow> (string \<times> 'a) list \<Rightarrow> (string \<times> 'a) list" where
  "keep_valid valid t = filter (\<lambda>(s, x). s \<in> set valid) t"

text \<open>
  The whole section on one table, in the order of the script. The roster is read at line
  293, after the exclusions and before the corrections, and the table is not written
  anywhere before it: when the roster has one row the outcome is the failure of line 295.
\<close>

definition subject_corrections ::
  "('a \<Rightarrow> bool) \<Rightarrow> bool \<Rightarrow> (string \<rightharpoonup> string) \<Rightarrow> (string \<times> int64) list
     \<Rightarrow> (string option \<times> 'a) list \<Rightarrow> error + (string \<times> 'a) list" where
  "subject_corrections required wska2 sub_ids_corrections roster t =
     (let t1 = replace_zwsp
                 (exclude
                    (drop_WSKA2_LSAS wska2
                       (strip_upper
                          (dropna_subset required t))))
      in case valid_sub_ids roster of
           Inl e \<Rightarrow> Inl e
         | Inr valid \<Rightarrow> Inr (keep_valid valid (apply_corrections sub_ids_corrections t1)))"

text \<open>
  Lines 366--372: the key from identifier to subject number. \<^verbatim>\<open>duplicated(keep=False).any()\<close>
  is true exactly when the column is not distinct. Line 372 applies \<^verbatim>\<open>squeeze()\<close> again,
  to the frame of one column that is left: with one row it is a number, which has no
  \<^verbatim>\<open>to_dict\<close>.
\<close>

definition sub_num_key :: "(string \<times> int64) list \<Rightarrow> error + (string \<rightharpoonup> int64)" where
  "sub_num_key roster =
     (let key = map (\<lambda>(i, n). (str_upper (str_strip i), n)) roster
      in if \<not> distinct (map fst key) then Inl AssertionError
         else if \<not> distinct (map snd key) then Inl AssertionError
         else if length key = 1 then Inl AttributeError
         else Inr (map_of key))"

text \<open>
  Lines 373--405 for one table: the assertion, then \<^verbatim>\<open>replace(sub_num_key).astype(int)\<close>.
  The cast makes the column a column of signed 64-bit integers: \<open>sint\<close> reads the 64 bits
  of the subject number as the signed integer they stand for (a number from the roster
  that is 2 to the power 63 or more comes out negative).
\<close>

definition replace_sub_num :: "(string \<rightharpoonup> int64) \<Rightarrow> (string \<times> 'a) list \<Rightarrow> error + (int \<times> 'a) list" where
  "replace_sub_num key t =
     (if \<not> list_all (\<lambda>(s, x). s \<in> dom key) t then Inl AssertionError
      else Inr (map (\<lambda>(s, x). (sint (the (key s)), x)) t))"

definition reconcile ::
  "('a \<Rightarrow> bool) \<Rightarrow> bool \<Rightarrow> (string \<rightharpoonup> string) \<Rightarrow> (string \<times> int64) list
     \<Rightarrow> (string option \<times> 'a) list \<Rightarrow> error + (int \<times> 'a) list" where
  "reconcile required wska2 sub_ids_corrections roster t =
     (case subject_corrections required wska2 sub_ids_corrections roster t of
        Inl e \<Rightarrow> Inl e
      | Inr t' \<Rightarrow>
          (case sub_num_key roster of
             Inl e \<Rightarrow> Inl e
           | Inr key \<Rightarrow> replace_sub_num key t'))"

subsection \<open>Index, sort, duplicates\<close>

text \<open>
  Lines 420--455 for a one-time table: the record identifier becomes the index, which must
  be unique, and the table is sorted by subject number and record identifier. Since no two
  rows agree on the record identifier the order is the same for every sorting algorithm.
\<close>

definition index_and_sort :: "('a \<Rightarrow> 'r::linorder) \<Rightarrow> (int \<times> 'a) list \<Rightarrow> error + (int \<times> 'a) list" where
  "index_and_sort record_id t =
     (if \<not> distinct (map (\<lambda>(s, x). record_id x) t) then Inl AssertionError
      else Inr (sort_key (\<lambda>(s, x). (s, record_id x)) t))"

text \<open>Lines 577--585: \<^verbatim>\<open>drop_duplicates('sub_id', keep='first')\<close>.\<close>

fun drop_dups :: "int list \<Rightarrow> (int \<times> 'a) list \<Rightarrow> (int \<times> 'a) list" where
  "drop_dups seen [] = []"
| "drop_dups seen ((s, x) # t) =
     (if s \<in> set seen then drop_dups seen t else (s, x) # drop_dups (s # seen) t)"

definition drop_duplicates_first :: "(int \<times> 'a) list \<Rightarrow> (int \<times> 'a) list" where
  "drop_duplicates_first t = drop_dups [] t"

text \<open>
  What the script does between lines 420 and 585 to the reconciled table of one of the
  rounds 1 to 9: index, sort, drop the duplicates.
\<close>

definition sort_and_drop_duplicates ::
  "('a \<Rightarrow> 'r::linorder) \<Rightarrow> (int \<times> 'a) list \<Rightarrow> error + (int \<times> 'a) list" where
  "sort_and_drop_duplicates record_id t =
     (case index_and_sort record_id t of
        Inl e \<Rightarrow> Inl e
      | Inr sorted_t \<Rightarrow> Inr (drop_duplicates_first sorted_t))"

text \<open>
  The demographics table, the tenth one-time table, is indexed and sorted in the same way
  but is never deduplicated: line 574 asserts that no subject has two rows in it, and the
  run stops when one has.
\<close>

definition sort_and_assert_no_duplicates ::
  "('a \<Rightarrow> 'r::linorder) \<Rightarrow> (int \<times> 'a) list \<Rightarrow> error + (int \<times> 'a) list" where
  "sort_and_assert_no_duplicates record_id demo =
     (case index_and_sort record_id demo of
        Inl e \<Rightarrow> Inl e
      | Inr sorted_demo \<Rightarrow>
          if \<not> distinct (map fst sorted_demo) then Inl AssertionError else Inr sorted_demo)"

subsection \<open>The daily table: reference date\<close>

text \<open>
  A calendar timestamp is a count of nanoseconds since the epoch;
  \<^verbatim>\<open>dt.normalize()\<close> (here \<open>dt_normalize\<close>) goes back to midnight. Lines 74--83 with \<^verbatim>\<open>keep=False\<close>, the only
  value the script passes: a row is marked when another row has the same subject and the
  same day.
\<close>

record daily =
  sub_id :: int
  unique_id :: string
  todays_date :: int
  redcap_timestamp :: int

definition day_ns :: int where
  "day_ns = 86400000000000"

definition dt_normalize :: "int \<Rightarrow> int" where
  "dt_normalize t = t - t mod day_ns"

definition sub_date_duplicates :: "'a daily_scheme list \<Rightarrow> bool list" where
  "sub_date_duplicates data =
     (let sub_date = map (\<lambda>r. (sub_id r, dt_normalize (todays_date r))) data
      in map (\<lambda>k. 1 < length (filter (\<lambda>k'. k' = k) sub_date)) sub_date)"

text \<open>
  Lines 664--679. The function returns the table with its new column \<^verbatim>\<open>ref_date\<close> and the
  rows written to \<^verbatim>\<open>ref_date_problems.csv\<close> (none when \<open>output\<close> is off).
\<close>

definition reference_date ::
  "bool \<Rightarrow> 'a daily_scheme list \<Rightarrow> ('a daily_scheme \<times> int option) list \<times> 'a daily_scheme list" where
  "reference_date output data =
     (let idx = map (\<lambda>(dup, r). dup \<or> \<bar>todays_date r - redcap_timestamp r\<bar> > day_ns)
                    (zip (sub_date_duplicates data) data);
          problems = (if output then map snd (filter fst (zip idx data)) else []);
          ref0 = map (\<lambda>(i, r). if \<not> i then Some (todays_date r - day_ns) else None) (zip idx data);
          ref1 = map (\<lambda>(ref, r). if todays_date r mod day_ns \<le> 4 * 3600000000000
                                   then map_option (\<lambda>d. d + - day_ns) ref else ref) (zip ref0 data);
          ref2 = map (map_option dt_normalize) ref1
      in (zip data ref2, problems))"

section \<open>Plausibility limits of the daily table\<close>

text \<open>Lines 651--656, the five numeric columns, on one row.\<close>

record impossible_vars =
  sleepdiary_sleeplatency :: "rat option"
  sleepdiary_naptime :: "rat option"
  night_awakening_time :: "rat option"
  socialize_min :: "rat option"
  alcohol_bev :: "rat option"

text \<open>\<^verbatim>\<open>data.loc[data[col] > limit, col] = np.nan\<close> on one cell.\<close>

definition nan_above :: "rat \<Rightarrow> rat option \<Rightarrow> rat option" where
  "nan_above limit cell = (case cell of None \<Rightarrow> None | Some v \<Rightarrow> if v > limit then None else Some v)"

definition remove_impossible_values :: "impossible_vars \<Rightarrow> impossible_vars" where
  "remove_impossible_values r =
     r\<lparr> sleepdiary_sleeplatency := nan_above (24 * 60) (sleepdiary_sleeplatency r),
        sleepdiary_naptime := nan_above (24 * 60) (sleepdiary_naptime r),
        night_awakening_time := nan_above (24 * 60) (night_awakening_time r),
        socialize_min := nan_above (24 * 60) (socialize_min r),
        alcohol_bev := nan_above 48 (alcohol_bev r) \<rparr>"

section \<open>Scale scores\<close>

text \<open>\<^verbatim>\<open>df[cols].sum(axis=1, skipna=False)\<close> on the cells of one row.\<close>

fun sum_skipna_False :: "rat option list \<Rightarrow> rat option" where
  "sum_skipna_False [] = Some 0"
| "sum_skipna_False (cell # cells) =
     (case (cell, sum_skipna_False cells) of
        (Some v, Some acc) \<Rightarrow> Some (v + acc)
      | _ \<Rightarrow> None)"

text \<open>Lines 1336--1341: the positive-affect scale of the daily table.\<close>

record panas_pa_vars =
  panas_interested3 :: "rat option"
  panas_excited3 :: "rat option"
  panas_strong3 :: "rat option"
  panas_enthusiastic3 :: "rat option"
  panas_proud3 :: "rat option"
  panas_alert3 :: "rat option"
  panas_inspired3 :: "rat option"
  panas_determined3 :: "rat option"
  panas_attentive3 :: "rat option"
  panas_active3 :: "rat option"

definition PANAS_PA :: "panas_pa_vars \<Rightarrow> rat option" where
  "PANAS_PA r =
     sum_skipna_False
       [panas_interested3 r, panas_excited3 r, panas_strong3 r, panas_enthusiastic3 r,
        panas_proud3 r, panas_alert3 r, panas_inspired3 r, panas_determined3 r,
        panas_attentive3 r, panas_active3 r]"

text \<open>
  Lines 1387--1394: the sleep-disturbance component of the PSQI, on one row. The sum runs
  over the columns from \<^verbatim>\<open>psqi_5b\<close> to \<^verbatim>\<open>psqi_5j\<close> in the order of the raw file; the columns
  before \<^verbatim>\<open>psqi_5j\<close> are the list \<open>psqi_5b_to_5i\<close>. \<^verbatim>\<open>psqi_5j2\<close> is the free text that goes
  with \<^verbatim>\<open>psqi_5j\<close>. The two assertions of the script range over the whole column; here
  each is raised by the row that violates it.
\<close>

record psqi_5_vars =
  psqi_5b_to_5i :: "rat option list"
  psqi_5j :: "rat option"
  psqi_5j2 :: "string option"

definition PSQIDISTB :: "psqi_5_vars \<Rightarrow> error + rat option" where
  "PSQIDISTB r =
     (let psqi_5j' = (if psqi_5j2 r = None \<or> psqi_5j r = None then Some 0 else psqi_5j r)
      in case sum_skipna_False (psqi_5b_to_5i r @ [psqi_5j']) of
           None \<Rightarrow> Inr None
         | Some v \<Rightarrow>
             if of_int \<lfloor>v\<rfloor> \<noteq> v then Inl AssertionError
             else
               let v1 = (if 1 \<le> v \<and> v \<le> 9 then 1 else v);
                   v2 = (if 10 \<le> v1 \<and> v1 \<le> 18 then 2 else v1);
                   v3 = (if v2 > 18 then 3 else v2)
               in if v3 \<in> {0, 1, 2, 3} then Inr (Some v3) else Inl AssertionError)"

section \<open>Derived sleep variables of the daily table\<close>










section \<open>Row-wise view of the sleep-interval calculator\<close>

text \<open>
  \<open>calc_sleep_time\<close> and \<open>calc_sleep_midpoint\<close> work on whole series. Once the range checks
  have passed, each cell of the result depends on its own row only; the functions below
  give that cell, and the lemmas \<open>calc_sleep_time_rows\<close> and \<open>calc_sleep_midpoint_rows\<close>
  prove that the series functions compute exactly these.
\<close>

definition in_range :: "timedelta option \<times> timedelta option \<Rightarrow> bool" where
  "in_range row =
     (between_or_na 0 (Timedelta_hours 24) (fst row) \<and> between_or_na 0 (Timedelta_hours 24) (snd row))"

definition st_corr :: "bool \<Rightarrow> timedelta option \<times> timedelta option \<Rightarrow> rat option" where
  "st_corr c row =
     (let s = circular (total_hours (snd row) (fst row))
      in if c \<and> idx_12 row then map_option (\<lambda>h. h + (- 12)) s else s)"

definition st_row :: "bool \<Rightarrow> rat \<Rightarrow> timedelta option \<times> timedelta option \<Rightarrow> rat option" where
  "st_row c m row = (if m \<noteq> 0 \<and> idx_min m (st_corr c row) row then None else st_corr c row)"

definition corr12_row :: "rat option \<Rightarrow> timedelta option \<times> timedelta option \<Rightarrow> rat option" where
  "corr12_row na_fill row = (if idx_12 row then Some 1 else na_fill)"

definition midpoint_row ::
  "rat option \<Rightarrow> (rat \<Rightarrow> timedelta) \<Rightarrow> rat \<Rightarrow> timedelta option \<times> timedelta option \<Rightarrow> timedelta option" where
  "midpoint_row na_fill Timedelta m row =
     (let mid0 = (case (fst row, hours_to_Timedelta Timedelta (st_row True m row)) of
                    (Some b, Some t) \<Rightarrow> Some (b + t div 2)
                  | _ \<Rightarrow> None);
          c = py_bool (corr12_row na_fill row);
          mid1 = (case mid0 of
                    None \<Rightarrow> None
                  | Some t \<Rightarrow> if t \<ge> Timedelta_hours 24 \<and> \<not> c
                             then Some (t + - Timedelta_hours 24) else Some t);
          mid2 = (case mid1 of
                    None \<Rightarrow> None
                  | Some t \<Rightarrow> if t \<ge> Timedelta_hours 13 \<and> c
                             then Some (t + - Timedelta_hours 12) else Some t)
      in map_option round_min mid2)"

section \<open>Properties of the sleep-interval calculator\<close>

lemma zip_map_map_same: "zip (map f xs) (map g xs) = map (\<lambda>x. (f x, g x)) xs"
  by (induction xs) auto

lemma zip_map_left_same: "zip (map f xs) xs = map (\<lambda>x. (f x, x)) xs"
  by (induction xs) auto

lemma st_corr_between: "in_range row \<Longrightarrow> between_or_na 0 24 (st_corr c row)"
  by (cases row)
     (auto simp: in_range_def st_corr_def between_or_na_def Timedelta_hours_def total_hours_def
         circular_def idx_12_def first_half_def Let_def split: option.splits)

lemma calc_sleep_time_rows:
  assumes "list_all in_range rows"
  shows "calc_sleep_time na_fill rows c m =
           Inr (if c then StCorr (map (st_row c m) rows) (map (corr12_row na_fill) rows)
                else St (map (st_row c m) rows))"
proof -
  have bed: "list_all (\<lambda>(bed, awake). between_or_na 0 (Timedelta_hours 24) bed) rows"
    using assms by (auto simp: list_all_iff in_range_def)
  have awake: "list_all (\<lambda>(bed, awake). between_or_na 0 (Timedelta_hours 24) awake) rows"
    using assms by (auto simp: list_all_iff in_range_def)
  have st1: "(if c then map (\<lambda>(s, i). if i then map_option (\<lambda>h. h + (- 12)) s else s)
                 (zip (map (\<lambda>(bed, awake). circular (total_hours awake bed)) rows) (map idx_12 rows))
            else map (\<lambda>(bed, awake). circular (total_hours awake bed)) rows) = map (st_corr c) rows"
    by (auto simp: zip_map_map_same st_corr_def Let_def split_def)
  have ok: "list_all (between_or_na 0 24) (map (st_corr c) rows)"
    using assms by (auto simp: list_all_iff st_corr_between)
  have st2: "(if m \<noteq> 0
              then map (\<lambda>(s, row). if idx_min m s row then None else s) (zip (map (st_corr c) rows) rows)
              else map (st_corr c) rows) = map (st_row c m) rows"
    by (auto simp: zip_map_left_same st_row_def)
  have flags: "map (\<lambda>i. if i then Some 1 else na_fill) (map idx_12 rows) = map (corr12_row na_fill) rows"
    by (simp add: corr12_row_def)
  show ?thesis
    unfolding calc_sleep_time_def Let_def st1 st2 flags
    using bed awake ok by simp
qed


lemma st_row_between: "in_range row \<Longrightarrow> between_or_na 0 24 (st_row c m row)"
  using st_corr_between[of row c] by (simp add: st_row_def between_or_na_def)

lemma Timedelta_accurate_exact: "Timedelta_accurate Timedelta_exact"
  by (simp add: Timedelta_accurate_def Timedelta_exact_def)

lemma Timedelta_accurate_bounds:
  assumes "Timedelta_accurate Timedelta" "0 \<le> h" "h \<le> 24"
  shows "0 \<le> Timedelta h \<and> Timedelta h \<le> Timedelta_hours 24 + 1000000"
proof -
  have a: "0 \<le> Timedelta h" and b: "\<bar>Timedelta h - \<lfloor>h * 3600000000000\<rfloor>\<bar> \<le> 1000000"
    using assms unfolding Timedelta_accurate_def by blast+
  have "h * 3600000000000 \<le> 24 * 3600000000000"
    using assms(3) by simp
  then have "\<lfloor>h * 3600000000000\<rfloor> \<le> \<lfloor>24 * 3600000000000 :: rat\<rfloor>"
    by (rule floor_mono)
  then have "\<lfloor>h * 3600000000000\<rfloor> \<le> 86400000000000"
    by simp
  with a b show ?thesis unfolding Timedelta_hours_def by linarith
qed

lemma Timedelta_accurate_whole:
  assumes "Timedelta_accurate Timedelta" "0 \<le> n" "n \<le> 86400000000000"
  shows "0 \<le> Timedelta (rat_of_int n / 3600000000000)
         \<and> \<bar>Timedelta (rat_of_int n / 3600000000000) - n\<bar> \<le> 1000000"
proof -
  have h: "0 \<le> rat_of_int n / 3600000000000 \<and> rat_of_int n / 3600000000000 \<le> 24"
    using assms(2,3) by (simp add: field_simps)
  have "rat_of_int n / 3600000000000 * 3600000000000 = rat_of_int n"
    by simp
  then have "\<lfloor>rat_of_int n / 3600000000000 * 3600000000000\<rfloor> = n"
    by (simp only: floor_of_int)
  with assms(1) h show ?thesis unfolding Timedelta_accurate_def by metis
qed

lemma round_min_bounds:
  assumes "0 \<le> t" "t < Timedelta_hours 24 + 30000000000"
  shows "0 \<le> round_min t \<and> round_min t \<le> Timedelta_hours 24"
proof -
  define q where "q = t div 60000000000"
  define r where "r = t mod 60000000000"
  have t: "t = q * 60000000000 + r" and r: "0 \<le> r" "r < 60000000000"
    by (simp_all add: q_def r_def)
  have q0: "0 \<le> q" using assms(1) by (simp add: q_def pos_imp_zdiv_nonneg_iff)
  have q1: "q \<le> 1440" using assms(2) t r unfolding Timedelta_hours_def by linarith
  have q2: "q = 1440 \<Longrightarrow> r < 30000000000" using assms(2) t r unfolding Timedelta_hours_def by linarith
  have "round_min t = (if r > 30000000000 \<or> (r = 30000000000 \<and> odd q)
                       then (q + 1) * 60000000000 else q * 60000000000)"
    by (simp add: round_min_def Let_def q_def r_def)
  then show ?thesis using q0 q1 q2 unfolding Timedelta_hours_def
    by (cases "q = 1440") auto
qed

lemma round_min_near:
  assumes "\<bar>t - k * 60000000000\<bar> < 30000000000"
  shows "round_min t = k * 60000000000"
proof (cases "k * 60000000000 \<le> t")
  case True
  define r where "r = t - k * 60000000000"
  have r: "0 \<le> r" "r < 30000000000" "t = 60000000000 * k + r"
    using assms True by (simp_all add: r_def)
  have q: "t div 60000000000 = k"
    by (rule int_div_pos_eq[of t 60000000000 k r]) (use r in simp_all)
  have m: "t mod 60000000000 = r"
    by (rule int_mod_pos_eq[of t 60000000000 k r]) (use r in simp_all)
  show ?thesis using r(1,2) by (simp add: round_min_def Let_def q m)
next
  case False
  define r where "r = t - (k - 1) * 60000000000"
  have r: "30000000000 < r" "r < 60000000000" "t = 60000000000 * (k - 1) + r"
    using assms False by (simp_all add: r_def algebra_simps)
  have q: "t div 60000000000 = k - 1"
    by (rule int_div_pos_eq[of t 60000000000 "k - 1" r]) (use r in simp_all)
  have m: "t mod 60000000000 = r"
    by (rule int_mod_pos_eq[of t 60000000000 "k - 1" r]) (use r in simp_all)
  show ?thesis using r(1,2) by (simp add: round_min_def Let_def q m algebra_simps)
qed

lemma midpoint_row_Some:
  assumes "st_row True m (Some b, a) = Some h"
  shows "midpoint_row na_fill Timedelta m (Some b, a) =
           Some (round_min
             (let t = b + Timedelta h div 2;
                  c = py_bool (corr12_row na_fill (Some b, a));
                  t1 = (if t \<ge> Timedelta_hours 24 \<and> \<not> c then t + - Timedelta_hours 24 else t)
              in if t1 \<ge> Timedelta_hours 13 \<and> c then t1 + - Timedelta_hours 12 else t1))"
  by (simp add: midpoint_row_def hours_to_Timedelta_def assms Let_def)

lemma midpoint_row_between:
  assumes "in_range row" "Timedelta_accurate Timedelta"
  shows "between_or_na 0 (Timedelta_hours 24) (midpoint_row na_fill Timedelta m row)"
proof (cases "midpoint_row na_fill Timedelta m row")
  case None
  then show ?thesis by (simp add: between_or_na_def)
next
  case (Some t)
  then obtain b h where b: "fst row = Some b" and h: "st_row True m row = Some h"
    by (cases "fst row"; cases "st_row True m row")
       (auto simp: midpoint_row_def hours_to_Timedelta_def Let_def)
  obtain a where row: "row = (Some b, a)" using b by (cases row) auto
  have rng: "0 \<le> b" "b \<le> Timedelta_hours 24"
    using assms(1) by (auto simp: row in_range_def between_or_na_def)
  have "between_or_na 0 24 (st_row True m row)"
    using assms(1) by (rule st_row_between)
  then have hh: "0 \<le> h" "h \<le> 24" by (simp_all add: h between_or_na_def)
  define e where "e = Timedelta h"
  define f where "f = e div 2"
  have e: "0 \<le> e" "e \<le> Timedelta_hours 24 + 1000000"
    using Timedelta_accurate_bounds[OF assms(2) hh] by (simp_all add: e_def)
  have f: "0 \<le> f" "2 * f \<le> e" by (simp_all add: f_def e(1))
  define c where "c = py_bool (corr12_row na_fill (Some b, a))"
  define t1 where "t1 = (if b + f \<ge> Timedelta_hours 24 \<and> \<not> c then b + f + - Timedelta_hours 24 else b + f)"
  define u where "u = (if t1 \<ge> Timedelta_hours 13 \<and> c then t1 + - Timedelta_hours 12 else t1)"
  have mu: "midpoint_row na_fill Timedelta m row = Some (round_min u)"
    using midpoint_row_Some[of m b a h na_fill Timedelta] h
    by (simp add: row Let_def u_def t1_def c_def f_def e_def)
  have "0 \<le> u \<and> u < Timedelta_hours 24 + 30000000000"
    using rng e f unfolding u_def t1_def Timedelta_hours_def
    by (cases c) auto
  then show ?thesis using round_min_bounds[of u] mu by (simp add: between_or_na_def)
qed

lemma calc_sleep_midpoint_rows:
  assumes "list_all in_range rows" "Timedelta_accurate Timedelta"
  shows "calc_sleep_midpoint na_fill Timedelta rows True m = Inr (map (midpoint_row na_fill Timedelta m) rows)"
proof -
  have mids: "map (map_option round_min)
          (map (\<lambda>(mid, c). case mid of None \<Rightarrow> None
                | Some t \<Rightarrow> if t \<ge> Timedelta_hours 13 \<and> c then Some (t + - Timedelta_hours 12) else Some t)
            (zip (map (\<lambda>(mid, c). case mid of None \<Rightarrow> None
                        | Some t \<Rightarrow> if t \<ge> Timedelta_hours 24 \<and> \<not> c
                                   then Some (t + - Timedelta_hours 24) else Some t)
                    (zip (map (\<lambda>((bed, awake), d). case (bed, hours_to_Timedelta Timedelta d) of
                                  (Some b, Some t) \<Rightarrow> Some (b + t div 2) | _ \<Rightarrow> None)
                            (zip rows (map (st_row True m) rows)))
                         (map py_bool (map (corr12_row na_fill) rows))))
                 (map py_bool (map (corr12_row na_fill) rows))))
        = map (midpoint_row na_fill Timedelta m) rows"
    by (induction rows) (auto simp: midpoint_row_def Let_def split: option.splits)
  have ok: "list_all (between_or_na 0 (Timedelta_hours 24)) (map (midpoint_row na_fill Timedelta m) rows)"
    using assms by (auto simp: list_all_iff midpoint_row_between)
  have "calc_sleep_midpoint na_fill Timedelta rows True m =
          (if \<not> list_all (between_or_na 0 (Timedelta_hours 24)) (map (midpoint_row na_fill Timedelta m) rows)
           then Inl AssertionError else Inr (map (midpoint_row na_fill Timedelta m) rows))"
    unfolding calc_sleep_midpoint_def calc_sleep_time_rows[OF assms(1)]
    by (simp only: if_True sum.case sleep_time.case Let_def mids)
  then show ?thesis using ok by simp
qed

lemma calc_sleep_midpoint_Inr:
  assumes "calc_sleep_midpoint na_fill Timedelta rows correct_12 min_12 = Inr mids"
  shows "list_all (between_or_na 0 (Timedelta_hours 24)) mids"
  using assms unfolding calc_sleep_midpoint_def Let_def
  by (auto split: sum.splits sleep_time.splits if_splits)

lemmas sleep_eval =
  calc_sleep_time_def clock_def Timedelta_hours_def Timedelta_min_def Timedelta_sec_def
  between_or_na_def total_hours_def circular_def idx_12_def idx_min_def first_half_def

lemmas midpoint_eval =
  calc_sleep_midpoint_def hours_to_Timedelta_def Timedelta_exact_def round_min_def py_bool_def

lemma in_range_Some:
  "in_range (Some b, Some a) = (0 \<le> b \<and> b \<le> Timedelta_hours 24 \<and> 0 \<le> a \<and> a \<le> Timedelta_hours 24)"
  by (auto simp: in_range_def between_or_na_def)

lemma list_all_in_range_Some:
  "list_all in_range (map (\<lambda>(b, a). (Some b, Some a)) pairs) =
     list_all (\<lambda>(b, a). 0 \<le> b \<and> b \<le> Timedelta_hours 24 \<and> 0 \<le> a \<and> a \<le> Timedelta_hours 24) pairs"
  by (induction pairs) (auto simp: in_range_Some)

lemma list_all2_map_same: "list_all2 P xs (map f xs) = list_all (\<lambda>x. P x (f x)) xs"
  by (induction xs) auto




text \<open>
  Claim C2, as stated, fails: with \<open>min_12 = 2\<close>, bed time 23:50 and wake time 00:10 keep
  their 20-minute duration, whether or not \<open>correct_12\<close> is on. The bed time is not before
  13:00, so the window of lines 121--124 is not met.
\<close>

theorem min_12_2350_0010_counterexample:
  "calc_sleep_time None [(Some (clock 23 50), Some (clock 0 10))] True 2 = Inr (StCorr [Some (1 / 3)] [None])
   \<and> calc_sleep_time None [(Some (clock 23 50), Some (clock 0 10))] False 2 = Inr (St [Some (1 / 3)])"
  by (simp add: sleep_eval)

text \<open>
  Claim C2, amended. With \<open>min_12 = 2\<close>, bed time 23:50 and wake time 00:10 yield the
  20-minute duration (23:50 is outside the window), while bed time 01:50 and wake time 02:10
  yield a missing duration. In general, for times in the accepted range, a duration is made
  missing exactly when the computed duration (after the 12-hour correction, when that is on)
  is below \<open>min_12\<close> and both entered times lie at or after 1:00 and before 13:00. (The
  flag of both example rows is the fill value \<open>na_fill\<close> of the flag series.)
\<close>

theorem min_12_missing_iff:
  "calc_sleep_time na_fill [(Some (clock 23 50), Some (clock 0 10))] True 2 = Inr (StCorr [Some (1 / 3)] [na_fill])
   \<and> calc_sleep_time na_fill [(Some (clock 1 50), Some (clock 2 10))] True 2 = Inr (StCorr [None] [na_fill])
   \<and> (\<forall>pairs correct_12 min_12.
         list_all (\<lambda>(b, a). 0 \<le> b \<and> b \<le> Timedelta_hours 24 \<and> 0 \<le> a \<and> a \<le> Timedelta_hours 24) pairs
         \<longrightarrow> (\<exists>st. durations (calc_sleep_time na_fill (map (\<lambda>(b, a). (Some b, Some a)) pairs) correct_12 min_12) = Some st
                 \<and> list_all2 (\<lambda>(b, a) s.
                      let naive = (if a < b then rat_of_int (a - b) / 3600000000000 + 24
                                   else rat_of_int (a - b) / 3600000000000);
                          window = (Timedelta_hours 1 \<le> a \<and> a < Timedelta_hours 13
                                    \<and> Timedelta_hours 1 \<le> b \<and> b < Timedelta_hours 13);
                          computed = (if correct_12 \<and> a < b \<and> window then naive - 12 else naive)
                      in s = (if computed < min_12 \<and> window then None else Some computed)) pairs st))"
proof (intro conjI allI impI)
  show "calc_sleep_time na_fill [(Some (clock 23 50), Some (clock 0 10))] True 2 = Inr (StCorr [Some (1 / 3)] [na_fill])"
    by (simp add: sleep_eval)
  show "calc_sleep_time na_fill [(Some (clock 1 50), Some (clock 2 10))] True 2 = Inr (StCorr [None] [na_fill])"
    by (simp add: sleep_eval)
next
  fix pairs :: "(int \<times> int) list" and correct_12 :: bool and min_12 :: rat
  let ?rows = "map (\<lambda>(b, a). (Some b, Some a)) pairs"
  let ?P = "\<lambda>(b, a) s.
                      let naive = (if a < b then rat_of_int (a - b) / 3600000000000 + 24
                                   else rat_of_int (a - b) / 3600000000000);
                          window = (Timedelta_hours 1 \<le> a \<and> a < Timedelta_hours 13
                                    \<and> Timedelta_hours 1 \<le> b \<and> b < Timedelta_hours 13);
                          computed = (if correct_12 \<and> a < b \<and> window then naive - 12 else naive)
                      in s = (if computed < min_12 \<and> window then None else Some computed)"
  assume "list_all (\<lambda>(b, a). 0 \<le> b \<and> b \<le> Timedelta_hours 24 \<and> 0 \<le> a \<and> a \<le> Timedelta_hours 24) pairs"
  then have rng: "list_all in_range ?rows"
    by (simp only: list_all_in_range_Some)
  have d: "durations (calc_sleep_time na_fill ?rows correct_12 min_12) = Some (map (st_row correct_12 min_12) ?rows)"
    by (simp add: calc_sleep_time_rows[OF rng] durations_def)
  have row: "\<And>b a. in_range (Some b, Some a) \<Longrightarrow> ?P (b, a) (st_row correct_12 min_12 (Some b, Some a))"
  proof -
    fix b a :: int
    assume r: "in_range (Some b, Some a)"
    define naive where "naive = (if a < b then rat_of_int (a - b) / 3600000000000 + 24
                                   else rat_of_int (a - b) / 3600000000000)"
    define window where "window = (Timedelta_hours 1 \<le> a \<and> a < Timedelta_hours 13
                                    \<and> Timedelta_hours 1 \<le> b \<and> b < Timedelta_hours 13)"
    define computed where "computed = (if correct_12 \<and> a < b \<and> window then naive - 12 else naive)"
    have sc: "st_corr correct_12 (Some b, Some a) = Some computed"
      by (auto simp: st_corr_def total_hours_def circular_def idx_12_def first_half_def Let_def
            computed_def window_def naive_def)
    have ge0: "0 \<le> computed"
      using st_corr_between[OF r, of correct_12] sc by (simp add: between_or_na_def)
    have fh: "first_half (Some b) (Some a) = window"
      by (auto simp: first_half_def window_def)
    have X: "st_row correct_12 min_12 (Some b, Some a) =
               (if min_12 \<noteq> 0 \<and> computed < min_12 \<and> window then None else Some computed)"
      by (simp add: st_row_def idx_min_def sc fh)
    have Y: "(min_12 \<noteq> 0 \<and> computed < min_12 \<and> window) = (computed < min_12 \<and> window)"
      using ge0 by auto
    have "st_row correct_12 min_12 (Some b, Some a) =
               (if computed < min_12 \<and> window then None else Some computed)"
      by (simp only: X Y)
    then show "?P (b, a) (st_row correct_12 min_12 (Some b, Some a))"
      unfolding computed_def window_def naive_def
      by (simp only: prod.case Let_def)
  qed
  have "\<forall>p \<in> set pairs. ?P p (st_row correct_12 min_12 ((\<lambda>(b, a). (Some b, Some a)) p))"
  proof
    fix p assume p: "p \<in> set pairs"
    obtain b a where ba: "p = (b, a)" by (cases p)
    have "in_range ((\<lambda>(b, a). (Some b, Some a)) p)"
      using rng p by (simp only: list_all_iff set_map) blast
    then have "in_range (Some b, Some a)" by (simp only: ba prod.case)
    then have "?P (b, a) (st_row correct_12 min_12 (Some b, Some a))" by (rule row)
    then show "?P p (st_row correct_12 min_12 ((\<lambda>(b, a). (Some b, Some a)) p))"
      by (simp only: ba prod.case)
  qed
  then have "list_all2 ?P pairs (map (st_row correct_12 min_12) ?rows)"
    by (simp only: list_all2_map_same list_all_iff map_map comp_def)
  with d show "\<exists>st. durations (calc_sleep_time na_fill ?rows correct_12 min_12) = Some st \<and> list_all2 ?P pairs st"
    by blast
qed

text \<open>
  The theorem of claim C2 at two rows, one inside the window and one outside.
\<close>

theorem min_12_missing_iff_witness:
  "list_all (\<lambda>(b, a). 0 \<le> b \<and> b \<le> Timedelta_hours 24 \<and> 0 \<le> a \<and> a \<le> Timedelta_hours 24)
     [(clock 1 50, clock 2 10), (clock 23 50, clock 0 10)]
   \<and> durations (calc_sleep_time None [(Some (clock 1 50), Some (clock 2 10)),
                                  (Some (clock 23 50), Some (clock 0 10))] True 2)
       = Some [None, Some (1 / 3)]"
proof -
  have h: "list_all (\<lambda>(b, a). 0 \<le> b \<and> b \<le> Timedelta_hours 24 \<and> 0 \<le> a \<and> a \<le> Timedelta_hours 24)
     [(clock 1 50, clock 2 10), (clock 23 50, clock 0 10)]"
    by (simp add: clock_def Timedelta_hours_def Timedelta_min_def)
  from min_12_missing_iff[of None] h
  obtain st where
    "durations (calc_sleep_time None (map (\<lambda>(b, a). (Some b, Some a))
        [(clock 1 50, clock 2 10), (clock 23 50, clock 0 10)]) True 2) = Some st"
    by blast
  then show ?thesis using h
    by (simp add: sleep_eval durations_def)
qed

text \<open>
  Claim C4, as stated, fails when the floor \<open>min_12\<close> is on, which the claim does not
  exclude: with \<open>correct_12\<close> off and \<open>min_12 = 2\<close>, two equal times inside the window, bed
  time 02:00 and wake time 02:00, have the duration 0, which is below the floor, and lines
  119--125 return a missing duration, not 0.
\<close>

theorem equal_times_min_12_counterexample:
  "calc_sleep_time None [(Some (clock 2 0), Some (clock 2 0))] False 2 = Inr (St [None])
   \<and> St [None] \<noteq> St [Some 0]"
  by (simp add: sleep_eval)

text \<open>
  Claim C4, amended. For every series, of at least one row, of pairs of non-missing clock
  times \<open>a\<close>, \<open>b\<close> in the accepted range from 00:00 to 24:00, \<open>calc_sleep_time\<close> with
  \<open>correct_12\<close> off returns, raising nothing, one cell for every row. The cell is a duration in \<open>[0, 24]\<close> hours, or
  it is missing; it is missing only when the floor \<open>min_12\<close> is positive and both times lie
  at or after 1:00 and before 13:00, so never with \<open>min_12\<close> at its default 0. On a row
  whose two times are equal the cell is exactly 0, except that with a positive floor and
  the time at or after 1:00 and before 13:00 it is missing.
\<close>

theorem calc_sleep_time_in_0_24:
  assumes "pairs \<noteq> []"
    and "list_all (\<lambda>(a, b). 0 \<le> a \<and> a \<le> Timedelta_hours 24 \<and> 0 \<le> b \<and> b \<le> Timedelta_hours 24) pairs"
  shows "\<exists>st. calc_sleep_time na_fill (map (\<lambda>(a, b). (Some a, Some b)) pairs) False min_12 = Inr (St st)
           \<and> list_all2 (\<lambda>(a, b) s.
                (case s of
                   None \<Rightarrow> 0 < min_12 \<and> Timedelta_hours 1 \<le> a \<and> a < Timedelta_hours 13
                                      \<and> Timedelta_hours 1 \<le> b \<and> b < Timedelta_hours 13
                 | Some h \<Rightarrow> 0 \<le> h \<and> h \<le> 24)
                \<and> (a = b \<longrightarrow> s = (if 0 < min_12 \<and> Timedelta_hours 1 \<le> a \<and> a < Timedelta_hours 13
                                    then None else Some 0))) pairs st"
proof -
  let ?rows = "map (\<lambda>(a, b). (Some a, Some b)) pairs"
  let ?P = "\<lambda>(a, b) s.
                (case s of
                   None \<Rightarrow> 0 < min_12 \<and> Timedelta_hours 1 \<le> a \<and> a < Timedelta_hours 13
                                      \<and> Timedelta_hours 1 \<le> b \<and> b < Timedelta_hours 13
                 | Some (h::rat) \<Rightarrow> 0 \<le> h \<and> h \<le> 24)
                \<and> (a = b \<longrightarrow> s = (if 0 < min_12 \<and> Timedelta_hours 1 \<le> a \<and> a < Timedelta_hours 13
                                    then None else Some 0))"
  have rng: "list_all in_range ?rows"
    using assms(2) by (simp only: list_all_in_range_Some)
  have res: "calc_sleep_time na_fill ?rows False min_12 = Inr (St (map (st_row False min_12) ?rows))"
    by (simp add: calc_sleep_time_rows[OF rng])
  have row: "\<And>a b. in_range (Some a, Some b) \<Longrightarrow> ?P (a, b) (st_row False min_12 (Some a, Some b))"
  proof -
    fix a b :: int
    assume r: "in_range (Some a, Some b)"
    define h where "h = (if b < a then rat_of_int (b - a) / 3600000000000 + 24
                         else rat_of_int (b - a) / 3600000000000)"
    have sc: "st_corr False (Some a, Some b) = Some h"
      by (auto simp: st_corr_def total_hours_def circular_def Let_def h_def)
    have hb: "0 \<le> h" "h \<le> 24"
      using st_corr_between[OF r, of False] by (simp_all add: sc between_or_na_def)
    have eq: "a = b \<Longrightarrow> h = 0" by (simp add: h_def)
    have s: "st_row False min_12 (Some a, Some b) =
               (if min_12 \<noteq> 0 \<and> h < min_12 \<and> first_half (Some a) (Some b) then None else Some h)"
      by (simp add: st_row_def idx_min_def sc)
    show "?P (a, b) (st_row False min_12 (Some a, Some b))"
      unfolding s prod.case using hb eq
      by (auto simp: first_half_def)
  qed
  have "\<forall>p \<in> set pairs. ?P p (st_row False min_12 ((\<lambda>(a, b). (Some a, Some b)) p))"
  proof
    fix p assume p: "p \<in> set pairs"
    obtain a b where ab: "p = (a, b)" by (cases p)
    have "in_range ((\<lambda>(a, b). (Some a, Some b)) p)"
      using rng p by (simp only: list_all_iff set_map) blast
    then have "in_range (Some a, Some b)" by (simp only: ab prod.case)
    then have "?P (a, b) (st_row False min_12 (Some a, Some b))" by (rule row)
    then show "?P p (st_row False min_12 ((\<lambda>(a, b). (Some a, Some b)) p))"
      unfolding ab prod.case .
  qed
  then have "list_all2 ?P pairs (map (st_row False min_12) ?rows)"
    by (simp only: list_all2_map_same list_all_iff map_map comp_def)
  with res show ?thesis by blast
qed

text \<open>
  The theorem of claim C4 with the floor off, at three rows (22:30 to 07:15, two equal
  times, and the two ends of the accepted range), and with the floor at 2 hours, at two
  rows of equal times, one inside the window and one outside.
\<close>

theorem calc_sleep_time_in_0_24_witness:
  "list_all (\<lambda>(a, b). 0 \<le> a \<and> a \<le> Timedelta_hours 24 \<and> 0 \<le> b \<and> b \<le> Timedelta_hours 24)
     [(clock 22 30, clock 7 15), (clock 23 0, clock 23 0), (0, Timedelta_hours 24)]
   \<and> calc_sleep_time None [(Some (clock 22 30), Some (clock 7 15)), (Some (clock 23 0), Some (clock 23 0)),
                        (Some 0, Some (Timedelta_hours 24))] False 0
       = Inr (St [Some (35 / 4), Some 0, Some 24])
   \<and> list_all (\<lambda>(a, b). 0 \<le> a \<and> a \<le> Timedelta_hours 24 \<and> 0 \<le> b \<and> b \<le> Timedelta_hours 24)
     [(clock 2 0, clock 2 0), (clock 23 0, clock 23 0)]
   \<and> calc_sleep_time None [(Some (clock 2 0), Some (clock 2 0)), (Some (clock 23 0), Some (clock 23 0))] False 2
       = Inr (St [None, Some 0])"
proof -
  have h: "list_all (\<lambda>(a, b). 0 \<le> a \<and> a \<le> Timedelta_hours 24 \<and> 0 \<le> b \<and> b \<le> Timedelta_hours 24)
     [(clock 22 30, clock 7 15), (clock 23 0, clock 23 0), (0, Timedelta_hours 24)]"
    by (simp add: clock_def Timedelta_hours_def Timedelta_min_def)
  have h2: "list_all (\<lambda>(a, b). 0 \<le> a \<and> a \<le> Timedelta_hours 24 \<and> 0 \<le> b \<and> b \<le> Timedelta_hours 24)
     [(clock 2 0, clock 2 0), (clock 23 0, clock 23 0)]"
    by (simp add: clock_def Timedelta_hours_def Timedelta_min_def)
  have e: "calc_sleep_time None [(Some (clock 22 30), Some (clock 7 15)), (Some (clock 23 0), Some (clock 23 0)),
                        (Some 0, Some (Timedelta_hours 24))] False 0
       = Inr (St [Some (35 / 4), Some 0, Some 24])"
    by (simp add: sleep_eval)
  have e2: "calc_sleep_time None [(Some (clock 2 0), Some (clock 2 0)), (Some (clock 23 0), Some (clock 23 0))] False 2
       = Inr (St [None, Some 0])"
    by (simp add: sleep_eval)
  from calc_sleep_time_in_0_24[OF _ h, of None 0]
  have "\<exists>st. calc_sleep_time None (map (\<lambda>(a, b). (Some a, Some b))
        [(clock 22 30, clock 7 15), (clock 23 0, clock 23 0), (0, Timedelta_hours 24)]) False 0 = Inr (St st)"
    by blast
  moreover from calc_sleep_time_in_0_24[OF _ h2, of None 2]
  have "\<exists>st. calc_sleep_time None (map (\<lambda>(a, b). (Some a, Some b))
        [(clock 2 0, clock 2 0), (clock 23 0, clock 23 0)]) False 2 = Inr (St st)"
    by blast
  ultimately show ?thesis using h h2 e e2 by blast
qed

lemma st_row_2300_0300: "st_row True m (Some (clock 23 0), Some (clock 3 0)) = Some 4"
  by (simp add: st_row_def st_corr_def total_hours_def circular_def idx_12_def idx_min_def
        first_half_def clock_def Timedelta_hours_def Timedelta_min_def Let_def)

lemma Timedelta_accurate_4:
  assumes "Timedelta_accurate Timedelta"
  shows "\<bar>Timedelta 4 - 14400000000000\<bar> \<le> 1000000"
proof -
  have "0 \<le> (4::rat) \<and> (4::rat) \<le> 24" by simp
  then have "\<bar>Timedelta 4 - \<lfloor>(4::rat) * 3600000000000\<rfloor>\<bar> \<le> 1000000"
    using assms unfolding Timedelta_accurate_def by blast
  then show ?thesis by simp
qed

text \<open>
  The midpoint of bed time 23:00 and wake time 03:00, for each of the two values that the
  flag of an uncorrected row can have and for every conversion within a millisecond of the
  exact one: 01:00 when the flag is 0, 13:00 when the flag is \<^verbatim>\<open>NaN\<close>.
\<close>

lemma midpoint_2300_0300:
  assumes "Timedelta_accurate Timedelta"
  shows "calc_sleep_midpoint (Some 0) Timedelta [(Some (clock 23 0), Some (clock 3 0))] True m
           = Inr [Some (clock 1 0)]"
    and "calc_sleep_midpoint None Timedelta [(Some (clock 23 0), Some (clock 3 0))] True m
           = Inr [Some (clock 13 0)]"
proof -
  let ?row = "(Some (clock 23 0), Some (clock 3 0))"
  have rng: "list_all in_range [?row]"
    by (simp add: in_range_def between_or_na_def clock_def Timedelta_hours_def Timedelta_min_def)
  define f where "f = Timedelta 4 div 2"
  have f: "7199999500000 \<le> f" "f \<le> 7200000500000"
    using Timedelta_accurate_4[OF assms] unfolding f_def by linarith+
  have no: "\<not> idx_12 ?row"
    by (simp add: idx_12_def first_half_def clock_def Timedelta_hours_def Timedelta_min_def)
  have m0: "midpoint_row (Some 0) Timedelta m ?row = Some (round_min (f - 3600000000000))"
    unfolding midpoint_row_Some[OF st_row_2300_0300] using f no
    by (simp add: Let_def corr12_row_def py_bool_def f_def[symmetric]
          clock_def Timedelta_hours_def Timedelta_min_def)
  have mn: "midpoint_row None Timedelta m ?row = Some (round_min (39600000000000 + f))"
    unfolding midpoint_row_Some[OF st_row_2300_0300] using f no
    by (simp add: Let_def corr12_row_def py_bool_def f_def[symmetric]
          clock_def Timedelta_hours_def Timedelta_min_def)
  have r0: "round_min (f - 3600000000000) = 60 * 60000000000"
    by (rule round_min_near) (use f in linarith)
  have rn: "round_min (39600000000000 + f) = 780 * 60000000000"
    by (rule round_min_near) (use f in linarith)
  show "calc_sleep_midpoint (Some 0) Timedelta [?row] True m = Inr [Some (clock 1 0)]"
    unfolding calc_sleep_midpoint_rows[OF rng assms] list.map m0 r0
    by (simp add: clock_def Timedelta_hours_def Timedelta_min_def)
  show "calc_sleep_midpoint None Timedelta [?row] True m = Inr [Some (clock 13 0)]"
    unfolding calc_sleep_midpoint_rows[OF rng assms] list.map mn rn
    by (simp add: clock_def Timedelta_hours_def Timedelta_min_def)
qed

text \<open>
  A midpoint of 24:00, for every conversion within a millisecond of the exact one. With the
  flags at \<^verbatim>\<open>NaN\<close>: bed time 23:59:59 and wake time 23:59:58 have the duration 23:59:59,
  the midpoint 35:59:58.5 before and 23:59:58.5 after the twelve hours are subtracted, and
  the rounding takes it to 24:00. With the flags at 0: bed time 23:59:40 and wake time
  23:59:50 have the midpoint 23:59:45.
\<close>

lemma midpoint_24h:
  assumes "Timedelta_accurate Timedelta"
  shows "calc_sleep_midpoint None Timedelta
           [(Some (clock 23 59 + Timedelta_sec 59), Some (clock 23 59 + Timedelta_sec 58))] True m
           = Inr [Some (Timedelta_hours 24)]"
    and "calc_sleep_midpoint (Some 0) Timedelta
           [(Some (clock 23 59 + Timedelta_sec 40), Some (clock 23 59 + Timedelta_sec 50))] True m
           = Inr [Some (Timedelta_hours 24)]"
proof -
  let ?r1 = "(Some (clock 23 59 + Timedelta_sec 59), Some (clock 23 59 + Timedelta_sec 58))"
  let ?r2 = "(Some (clock 23 59 + Timedelta_sec 40), Some (clock 23 59 + Timedelta_sec 50))"
  have rng1: "list_all in_range [?r1]"
    by (simp add: in_range_def between_or_na_def clock_def Timedelta_hours_def Timedelta_min_def Timedelta_sec_def)
  have rng2: "list_all in_range [?r2]"
    by (simp add: in_range_def between_or_na_def clock_def Timedelta_hours_def Timedelta_min_def Timedelta_sec_def)
  have s1: "st_row True m ?r1 = Some (86399 / 3600)"
    by (simp add: st_row_def st_corr_def total_hours_def circular_def idx_12_def idx_min_def
        first_half_def clock_def Timedelta_hours_def Timedelta_min_def Timedelta_sec_def Let_def)
  have s2: "st_row True m ?r2 = Some (1 / 360)"
    by (simp add: st_row_def st_corr_def total_hours_def circular_def idx_12_def idx_min_def
        first_half_def clock_def Timedelta_hours_def Timedelta_min_def Timedelta_sec_def Let_def)
  define f1 where "f1 = Timedelta (86399 / 3600) div 2"
  define f2 where "f2 = Timedelta (1 / 360) div 2"
  have w1: "\<bar>Timedelta (86399 / 3600) - 86399000000000\<bar> \<le> 1000000"
    using Timedelta_accurate_whole[OF assms, of 86399000000000] by simp
  have w2: "\<bar>Timedelta (1 / 360) - 10000000000\<bar> \<le> 1000000"
    using Timedelta_accurate_whole[OF assms, of 10000000000] by simp
  have f1: "43199499500000 \<le> f1" "f1 \<le> 43199500500000"
    using w1 unfolding f1_def by linarith+
  have f2: "4999500000 \<le> f2" "f2 \<le> 5000500000"
    using w2 unfolding f2_def by linarith+
  have no1: "\<not> idx_12 ?r1"
    by (simp add: idx_12_def first_half_def clock_def Timedelta_hours_def Timedelta_min_def Timedelta_sec_def)
  have no2: "\<not> idx_12 ?r2"
    by (simp add: idx_12_def first_half_def clock_def Timedelta_hours_def Timedelta_min_def Timedelta_sec_def)
  have m1: "midpoint_row None Timedelta m ?r1 = Some (round_min (43199000000000 + f1))"
    unfolding midpoint_row_Some[OF s1] using f1 no1
    by (simp add: Let_def corr12_row_def py_bool_def f1_def[symmetric]
          clock_def Timedelta_hours_def Timedelta_min_def Timedelta_sec_def)
  have m2: "midpoint_row (Some 0) Timedelta m ?r2 = Some (round_min (86380000000000 + f2))"
    unfolding midpoint_row_Some[OF s2] using f2 no2
    by (simp add: Let_def corr12_row_def py_bool_def f2_def[symmetric]
          clock_def Timedelta_hours_def Timedelta_min_def Timedelta_sec_def)
  have r1: "round_min (43199000000000 + f1) = 1440 * 60000000000"
    by (rule round_min_near) (use f1 in linarith)
  have r2: "round_min (86380000000000 + f2) = 1440 * 60000000000"
    by (rule round_min_near) (use f2 in linarith)
  show "calc_sleep_midpoint None Timedelta [?r1] True m = Inr [Some (Timedelta_hours 24)]"
    unfolding calc_sleep_midpoint_rows[OF rng1 assms] list.map m1 r1
    by (simp add: Timedelta_hours_def)
  show "calc_sleep_midpoint (Some 0) Timedelta [?r2] True m = Inr [Some (Timedelta_hours 24)]"
    unfolding calc_sleep_midpoint_rows[OF rng2 assms] list.map m2 r2
    by (simp add: Timedelta_hours_def)
qed

text \<open>
  Claim C3, as stated, fails in both halves. A returned midpoint can be 24:00 itself, which
  is not a clock time in \<open>[0, 24h)\<close>: the midpoint is rounded to the minute after the
  wrap, and the assertion of line 154, whose upper end is inclusive, lets 24:00 pass. Bed
  time 23:59:59 and wake time 23:59:58 have the duration 23:59:59 and the midpoint
  35:59:58.5; twelve hours are subtracted, and 23:59:58.5 is rounded to 24:00. And since
  the flags of uncorrected rows are \<^verbatim>\<open>NaN\<close> (from pandas 1.4 on), line 140 reads every flag
  as true, the wrap at 24h of line 144 is not applied, and bed time 23:00 with wake time
  03:00 comes out as 13:00, not as 01:00. Neither midpoint is near a half minute, so the
  rounding does not depend on the last digits of the conversion to nanoseconds (lemmas
  \<open>midpoint_2300_0300\<close> and \<open>midpoint_24h\<close>).
\<close>

theorem midpoint_24h_counterexample:
  "calc_sleep_midpoint None Timedelta_exact
       [(Some (clock 23 59 + Timedelta_sec 59), Some (clock 23 59 + Timedelta_sec 58))] True 0
       = Inr [Some (Timedelta_hours 24)]
   \<and> \<not> Timedelta_hours 24 < Timedelta_hours 24
   \<and> calc_sleep_midpoint None Timedelta_exact [(Some (clock 23 0), Some (clock 3 0))] True 0
       = Inr [Some (clock 13 0)]
   \<and> clock 13 0 \<noteq> clock 1 0"
  by (simp add: sleep_eval midpoint_eval)

lemma calc_sleep_midpoint_returns:
  assumes "Timedelta_accurate Timedelta"
    and "list_all (\<lambda>(bed, awake). between_or_na 0 (Timedelta_hours 24) bed
                                  \<and> between_or_na 0 (Timedelta_hours 24) awake) rows"
  shows "\<exists>mids. calc_sleep_midpoint na_fill Timedelta rows True min_12 = Inr mids
                \<and> length mids = length rows"
proof -
  have "list_all in_range rows"
    using assms(2) by (auto simp: list_all_iff in_range_def)
  then show ?thesis
    using assms(1) by (simp add: calc_sleep_midpoint_rows)
qed

text \<open>
  Claim C3, amended. For every input, every non-missing midpoint that
  \<open>calc_sleep_midpoint\<close> returns lies between 0 and 24h, both ends included. With
  \<open>correct_12\<close> on (as the script always calls it) the function does return, one midpoint
  for each row, whenever the times are in the accepted range and at least one row has a
  duration that is not missing. (What it returns for bed time 23:00 and wake time 03:00 is
  not part of the amended claim: it is 01:00, the naive 25:00 wrapped at 24h, only when the
  flags of the uncorrected rows are 0, and 13:00 when they are \<^verbatim>\<open>NaN\<close>; see lemma
  \<open>midpoint_2300_0300\<close>.)
\<close>

theorem calc_sleep_midpoint_postcondition:
  "(\<forall>na_fill Timedelta rows correct_12 min_12 mids.
         calc_sleep_midpoint na_fill Timedelta rows correct_12 min_12 = Inr mids
         \<longrightarrow> list_all (\<lambda>mid. case mid of None \<Rightarrow> True
                                | Some t \<Rightarrow> 0 \<le> t \<and> t \<le> Timedelta_hours 24) mids)
   \<and> (\<forall>na_fill Timedelta rows min_12.
         Timedelta_accurate Timedelta
         \<and> list_all (\<lambda>(bed, awake). between_or_na 0 (Timedelta_hours 24) bed
                                  \<and> between_or_na 0 (Timedelta_hours 24) awake) rows
         \<and> (\<exists>st. durations (calc_sleep_time na_fill rows True min_12) = Some st
                  \<and> \<not> list_all (\<lambda>d. d = None) st)
         \<longrightarrow> (\<exists>mids. calc_sleep_midpoint na_fill Timedelta rows True min_12 = Inr mids
                     \<and> length mids = length rows))"
proof (intro conjI allI impI)
  fix na_fill Timedelta rows correct_12 min_12 mids
  assume r: "calc_sleep_midpoint na_fill Timedelta rows correct_12 min_12 = Inr mids"
  have "list_all (between_or_na 0 (Timedelta_hours 24)) mids"
    using r by (rule calc_sleep_midpoint_Inr)
  then show "list_all (\<lambda>mid. case mid of None \<Rightarrow> True | Some t \<Rightarrow> 0 \<le> t \<and> t \<le> Timedelta_hours 24) mids"
    by (auto simp: list_all_iff between_or_na_def split: option.splits)
next
  fix na_fill :: "rat option" and Timedelta :: "rat \<Rightarrow> timedelta"
    and rows :: "(timedelta option \<times> timedelta option) list" and min_12 :: rat
  assume a: "Timedelta_accurate Timedelta
         \<and> list_all (\<lambda>(bed, awake). between_or_na 0 (Timedelta_hours 24) bed
                                  \<and> between_or_na 0 (Timedelta_hours 24) awake) rows
         \<and> (\<exists>st. durations (calc_sleep_time na_fill rows True min_12) = Some st
                  \<and> \<not> list_all (\<lambda>d. d = None) st)"
  then show "\<exists>mids. calc_sleep_midpoint na_fill Timedelta rows True min_12 = Inr mids \<and> length mids = length rows"
    using calc_sleep_midpoint_returns[of Timedelta rows na_fill min_12] by blast
qed

text \<open>
  The theorem of claim C3 with the exact conversion, at three rows with the flags of
  uncorrected rows at \<^verbatim>\<open>NaN\<close>: one row past midnight, one with the 12-hour correction, one
  with a missing bed time.
\<close>

theorem calc_sleep_midpoint_postcondition_witness:
  "Timedelta_accurate Timedelta_exact
   \<and> list_all (\<lambda>(bed, awake). between_or_na 0 (Timedelta_hours 24) bed
                            \<and> between_or_na 0 (Timedelta_hours 24) awake)
     [(Some (clock 23 0), Some (clock 3 0)), (Some (clock 11 0), Some (clock 7 0)), (None, Some (clock 7 0))]
   \<and> durations (calc_sleep_time None
        [(Some (clock 23 0), Some (clock 3 0)), (Some (clock 11 0), Some (clock 7 0)),
         (None, Some (clock 7 0))] True 2) = Some [Some 4, Some 8, None]
   \<and> \<not> list_all (\<lambda>d. d = None) [Some (4::rat), Some 8, None]
   \<and> calc_sleep_midpoint None Timedelta_exact
        [(Some (clock 23 0), Some (clock 3 0)), (Some (clock 11 0), Some (clock 7 0)),
         (None, Some (clock 7 0))] True 2
       = Inr [Some (clock 13 0), Some (clock 3 0), None]
   \<and> list_all (\<lambda>mid. case mid of None \<Rightarrow> True | Some t \<Rightarrow> 0 \<le> t \<and> t \<le> Timedelta_hours 24)
        [Some (clock 13 0), Some (clock 3 0), None]"
proof -
  have a: "Timedelta_accurate Timedelta_exact"
    by (simp add: Timedelta_accurate_def Timedelta_exact_def)
  have h: "list_all (\<lambda>(bed, awake). between_or_na 0 (Timedelta_hours 24) bed
                            \<and> between_or_na 0 (Timedelta_hours 24) awake)
     [(Some (clock 23 0), Some (clock 3 0)), (Some (clock 11 0), Some (clock 7 0)), (None, Some (clock 7 0))]"
    by (simp add: clock_def Timedelta_hours_def Timedelta_min_def between_or_na_def)
  have e: "calc_sleep_midpoint None Timedelta_exact
        [(Some (clock 23 0), Some (clock 3 0)), (Some (clock 11 0), Some (clock 7 0)),
         (None, Some (clock 7 0))] True 2
       = Inr [Some (clock 13 0), Some (clock 3 0), None]"
    by (simp add: sleep_eval midpoint_eval)
  from calc_sleep_midpoint_postcondition e
  have p: "list_all (\<lambda>mid. case mid of None \<Rightarrow> True | Some t \<Rightarrow> 0 \<le> t \<and> t \<le> Timedelta_hours 24)
        [Some (clock 13 0), Some (clock 3 0), None]"
    by blast
  have d: "durations (calc_sleep_time None
        [(Some (clock 23 0), Some (clock 3 0)), (Some (clock 11 0), Some (clock 7 0)),
         (None, Some (clock 7 0))] True 2) = Some [Some 4, Some 8, None]"
    by (simp add: sleep_eval durations_def)
  have n: "\<not> list_all (\<lambda>d. d = None) [Some (4::rat), Some 8, None]"
    by simp
  from calc_sleep_midpoint_postcondition a h d n
  have "\<exists>mids. calc_sleep_midpoint None Timedelta_exact
        [(Some (clock 23 0), Some (clock 3 0)), (Some (clock 11 0), Some (clock 7 0)),
         (None, Some (clock 7 0))] True 2 = Inr mids"
    by blast
  then show ?thesis
    using a h d n e p by blast
qed

section \<open>Properties of the identity reconciliation\<close>

text \<open>
  Claim C5, as stated, fails: the script filters on the exclusion list (lines 263--276)
  before it applies the corrections (lines 303--314). A row entered as \<^verbatim>\<open>x1\<close>, which the
  corrections send onto the excluded identifier \<^verbatim>\<open>54DLL\<close>, passes the exclusion step; when
  the roster holds \<^verbatim>\<open>54DLL\<close> the row comes out of the reconciliation with that subject's
  number.
\<close>

theorem exclusion_before_corrections_counterexample:
  "exclude (drop_WSKA2_LSAS False (strip_upper (dropna_subset (\<lambda>x. True) [(Some ''x1 '', ())]))) = [(''X1'', ())]
   \<and> replace_dict [''X1'' \<mapsto> ''54DLL'', ''ZZ9'' \<mapsto> ''ABCDE''] ''X1'' = ''54DLL''
   \<and> ''54DLL'' \<in> set excl_subs
   \<and> reconcile (\<lambda>x. True) False [''X1'' \<mapsto> ''54DLL'', ''ZZ9'' \<mapsto> ''ABCDE'']
        [(''54DLL'', 7), (''ABCDE'', 8)] [(Some ''x1 '', ())] = Inr [(7, ())]"
  by code_simp

text \<open>
  Claim C5, amended. The exclusion filter is applied before the corrections map: for every
  source table a row is dropped by the exclusion step exactly when its trimmed and
  upper-cased identifier, as entered and not yet corrected, is in the exclusion list. The
  rows that remain then have the zero-width space removed and the corrections applied, and
  are kept when the corrected identifier is in the roster. (For the daily table and round 6
  the identifier \<^verbatim>\<open>WSKA2_LSAS\<close> is dropped as well, before the exclusion step; and with a
  roster of exactly one row the script stops at line 295.)
\<close>

theorem exclusion_on_uncorrected_identifier:
  "subject_corrections required wska2 sub_ids_corrections roster t =
     (if length roster = 1 then Inl AttributeError
      else Inr
        (map (\<lambda>(s, x). (replace_dict sub_ids_corrections (remove_zwsp (str_upper (str_strip s))), x))
          (filter (\<lambda>(s, x). \<not> (wska2 \<and> str_upper (str_strip s) = ''WSKA2_LSAS'')
                             \<and> \<not> (str_upper (str_strip s) \<in> set excl_subs)
                             \<and> replace_dict sub_ids_corrections (remove_zwsp (str_upper (str_strip s)))
                                   \<in> set (map (\<lambda>(i, n). str_upper (str_strip i)) roster))
             (dropna_subset required t))))"
  unfolding subject_corrections_def valid_sub_ids_def keep_valid_def apply_corrections_def
    replace_zwsp_def exclude_def drop_WSKA2_LSAS_def strip_upper_def Let_def
  by (induction "dropna_subset required t") (auto simp: filter_map comp_def split_def)

lemma subject_corrections_Inr:
  assumes "length roster \<noteq> 1"
  shows "\<exists>t'. subject_corrections required wska2 sub_ids_corrections roster t = Inr t'
              \<and> list_all (\<lambda>(s, x). s \<in> set (map (\<lambda>(i, n). str_upper (str_strip i)) roster)) t'"
  using assms
  by (auto simp: subject_corrections_def valid_sub_ids_def keep_valid_def Let_def list_all_iff)

lemma not_distinct_length: "\<not> distinct xs \<Longrightarrow> length xs \<noteq> 1"
  by (cases xs) auto

lemma roster_key_fst:
  "map fst (map (\<lambda>(i, n). (str_upper (str_strip i), n)) roster) = map (\<lambda>(i, n). str_upper (str_strip i)) roster"
  by (induction roster) auto

lemma roster_key_snd:
  "map snd (map (\<lambda>(i, n). (str_upper (str_strip i), n)) roster) = map snd roster"
  by (induction roster) auto

lemma map_of_inj_on:
  assumes "distinct (map fst k)" "distinct (map snd k)"
  shows "inj_on (map_of k) (dom (map_of k))"
proof (rule inj_onI)
  fix s s' assume "s \<in> dom (map_of k)" "s' \<in> dom (map_of k)" and eq: "map_of k s = map_of k s'"
  then obtain n where n: "map_of k s = Some n" "map_of k s' = Some n" by auto
  then have m1: "(s, n) \<in> set k" and m2: "(s', n) \<in> set k"
    using assms(1) by (simp_all only: map_of_eq_Some_iff)
  have inj: "inj_on snd (set k)"
    using assms(2) unfolding distinct_map by blast
  have "(s, n) = (s', n)"
    by (rule inj_onD[OF inj _ m1 m2]) simp
  then show "s = s'" by simp
qed

lemma sint_the_inj_on:
  fixes key :: "string \<rightharpoonup> int64"
  assumes "inj_on key (dom key)"
  shows "inj_on (\<lambda>s. sint (the (key s))) (dom key)"
proof (rule inj_onI)
  fix s s' assume d: "s \<in> dom key" "s' \<in> dom key" and eq: "sint (the (key s)) = sint (the (key s'))"
  from eq have "the (key s) = the (key s')" by (rule signed_word_eqI)
  with d have "key s = key s'" by auto
  with assms d show "s = s'" by (auto simp: inj_on_def)
qed

text \<open>
  Claim C6. When the roster has no duplicate identifier (after trimming and upper-casing)
  and no duplicate subject number (and more than one row, or \<^verbatim>\<open>squeeze()\<close> would stop the
  script), the key from identifier to subject number is defined on exactly the valid
  identifiers and is injective there; so is the subject number that a row is given, the
  signed reading of the key's 64-bit number. Every identifier that remains after the
  filtering is in the domain of the key, so the assertions of lines 373--383 hold, and the
  reconciliation returns each remaining row with the subject number of its identifier.
  When the roster has a duplicate, of either kind, the run stops with an assertion failure;
  when it has exactly one row, it stops with the failure of \<^verbatim>\<open>squeeze()\<close>. In no case is a
  row given a number that is not the one the roster has for its identifier.
\<close>

theorem sub_num_key_injective_total:
  "(1 < length roster
      \<and> distinct (map (\<lambda>(i, n). str_upper (str_strip i)) roster) \<and> distinct (map snd roster)
      \<longrightarrow> (\<exists>key t'. sub_num_key roster = Inr key
                 \<and> dom key = set (map (\<lambda>(i, n). str_upper (str_strip i)) roster)
                 \<and> inj_on key (dom key)
                 \<and> inj_on (\<lambda>s. sint (the (key s))) (dom key)
                 \<and> subject_corrections required wska2 sub_ids_corrections roster t = Inr t'
                 \<and> list_all (\<lambda>(s, x). s \<in> dom key) t'
                 \<and> reconcile required wska2 sub_ids_corrections roster t =
                      Inr (map (\<lambda>(s, x). (sint (the (key s)), x)) t')))
   \<and> (\<not> (distinct (map (\<lambda>(i, n). str_upper (str_strip i)) roster) \<and> distinct (map snd roster))
      \<longrightarrow> sub_num_key roster = Inl AssertionError
          \<and> reconcile required wska2 sub_ids_corrections roster t = Inl AssertionError)
   \<and> (length roster = 1
      \<longrightarrow> reconcile required wska2 sub_ids_corrections roster t = Inl AttributeError)"
proof (intro conjI impI)
  let ?k = "map (\<lambda>(i, n). (str_upper (str_strip i), n)) roster"
  let ?ids = "map (\<lambda>(i, n). str_upper (str_strip i)) roster"
  note f = roster_key_fst[of roster] and s = roster_key_snd[of roster]
  {
    assume ok: "1 < length roster \<and> distinct ?ids \<and> distinct (map snd roster)"
    have key: "sub_num_key roster = Inr (map_of ?k)"
      unfolding sub_num_key_def Let_def f s using ok by simp
    have dom: "dom (map_of ?k) = set ?ids"
      by (force simp: dom_map_of_conv_image_fst)
    have inj: "inj_on (map_of ?k) (dom (map_of ?k))"
      by (rule map_of_inj_on) (use ok in \<open>simp_all only: f s\<close>)
    have inj2: "inj_on (\<lambda>s. sint (the (map_of ?k s))) (dom (map_of ?k))"
      using inj by (rule sint_the_inj_on)
    obtain t' where t': "subject_corrections required wska2 sub_ids_corrections roster t = Inr t'"
      and all0: "list_all (\<lambda>(s, x). s \<in> set ?ids) t'"
      using subject_corrections_Inr[of roster required wska2 sub_ids_corrections t] ok by auto
    have all: "list_all (\<lambda>(s, x). s \<in> dom (map_of ?k)) t'"
      using all0 unfolding dom .
    have "reconcile required wska2 sub_ids_corrections roster t =
            Inr (map (\<lambda>(s, x). (sint (the (map_of ?k s)), x)) t')"
      using all by (simp add: reconcile_def key t' replace_sub_num_def)
    with key dom inj inj2 t' all
    show "\<exists>key t'. sub_num_key roster = Inr key
                 \<and> dom key = set ?ids
                 \<and> inj_on key (dom key)
                 \<and> inj_on (\<lambda>s. sint (the (key s))) (dom key)
                 \<and> subject_corrections required wska2 sub_ids_corrections roster t = Inr t'
                 \<and> list_all (\<lambda>(s, x). s \<in> dom key) t'
                 \<and> reconcile required wska2 sub_ids_corrections roster t =
                      Inr (map (\<lambda>(s, x). (sint (the (key s)), x)) t')"
      by blast
  }
  {
    assume bad: "\<not> (distinct ?ids \<and> distinct (map snd roster))"
    then show k: "sub_num_key roster = Inl AssertionError"
      unfolding sub_num_key_def Let_def f s by auto
    have "length ?ids \<noteq> 1 \<or> length (map snd roster) \<noteq> 1"
      using bad not_distinct_length[of ?ids] not_distinct_length[of "map snd roster"] by blast
    then have "length roster \<noteq> 1" by simp
    then obtain t' where "subject_corrections required wska2 sub_ids_corrections roster t = Inr t'"
      using subject_corrections_Inr[of roster required wska2 sub_ids_corrections t] by blast
    then show "reconcile required wska2 sub_ids_corrections roster t = Inl AssertionError"
      by (simp add: reconcile_def k)
  }
  {
    assume "length roster = 1"
    then show "reconcile required wska2 sub_ids_corrections roster t = Inl AttributeError"
      by (simp add: reconcile_def subject_corrections_def valid_sub_ids_def Let_def)
  }
qed

text \<open>
  The theorem of claim C6 at a roster without duplicates, where the identifier
  \<^verbatim>\<open> a1b2c3 \<close> is corrected to \<^verbatim>\<open>A1B2C4\<close> and gets the number 17, at a roster whose two
  identifiers agree after upper-casing, and at a roster of one row.
\<close>

theorem sub_num_key_injective_total_witness:
  "1 < length [(''a1b2c4 '', 17::int64), (''54dll'', 7)]
   \<and> distinct (map (\<lambda>(i, n). str_upper (str_strip i)) [(''a1b2c4 '', 17::int64), (''54dll'', 7)])
   \<and> distinct (map snd [(''a1b2c4 '', 17::int64), (''54dll'', 7)])
   \<and> reconcile (\<lambda>x. True) False [''A1B2C3'' \<mapsto> ''A1B2C4''] [(''a1b2c4 '', 17), (''54dll'', 7)]
        [(Some '' a1b2c3 '', ()), (None, ()), (Some ''zz'', ())] = Inr [(17, ())]
   \<and> \<not> (distinct (map (\<lambda>(i, n). str_upper (str_strip i)) [(''ab'', 1::int64), (''AB '', 2)])
          \<and> distinct (map snd [(''ab'', 1::int64), (''AB '', 2)]))
   \<and> reconcile (\<lambda>x. True) False [''A1B2C3'' \<mapsto> ''A1B2C4''] [(''ab'', 1), (''AB '', 2)]
        [(Some '' a1b2c3 '', ())] = Inl AssertionError
   \<and> length [(''a1b2c4 '', 17::int64)] = 1
   \<and> reconcile (\<lambda>x. True) False [''A1B2C3'' \<mapsto> ''A1B2C4''] [(''a1b2c4 '', 17)]
        [(Some '' a1b2c3 '', ())] = Inl AttributeError"
proof -
  have h0: "1 < length [(''a1b2c4 '', 17::int64), (''54dll'', 7)]"
    by simp
  have h1: "distinct (map (\<lambda>(i, n). str_upper (str_strip i)) [(''a1b2c4 '', 17::int64), (''54dll'', 7)])"
    by code_simp
  have h1': "distinct (map snd [(''a1b2c4 '', 17::int64), (''54dll'', 7)])"
    by simp
  have h2: "\<not> (distinct (map (\<lambda>(i, n). str_upper (str_strip i)) [(''ab'', 1::int64), (''AB '', 2)])
          \<and> distinct (map snd [(''ab'', 1::int64), (''AB '', 2)]))"
    by code_simp
  have h3: "length [(''a1b2c4 '', 17::int64)] = 1"
    by simp
  have e: "reconcile (\<lambda>x. True) False [''A1B2C3'' \<mapsto> ''A1B2C4''] [(''a1b2c4 '', 17), (''54dll'', 7)]
        [(Some '' a1b2c3 '', ()), (None, ()), (Some ''zz'', ())] = Inr [(17, ())]"
    by code_simp
  from h2 sub_num_key_injective_total[of "[(''ab'', 1), (''AB '', 2)]" "\<lambda>x. True" False
        "[''A1B2C3'' \<mapsto> ''A1B2C4'']" "[(Some '' a1b2c3 '', ())]"]
  have a: "reconcile (\<lambda>x. True) False [''A1B2C3'' \<mapsto> ''A1B2C4''] [(''ab'', 1), (''AB '', 2)]
        [(Some '' a1b2c3 '', ())] = Inl AssertionError"
    by blast
  from h3 sub_num_key_injective_total[of "[(''a1b2c4 '', 17)]" "\<lambda>x. True" False
        "[''A1B2C3'' \<mapsto> ''A1B2C4'']" "[(Some '' a1b2c3 '', ())]"]
  have b: "reconcile (\<lambda>x. True) False [''A1B2C3'' \<mapsto> ''A1B2C4''] [(''a1b2c4 '', 17)]
        [(Some '' a1b2c3 '', ())] = Inl AttributeError"
    by blast
  show ?thesis
    by (intro conjI) (rule h0, rule h1, rule h1', rule e, rule h2, rule a, rule h3, rule b)
qed

subsection \<open>Duplicates\<close>

lemma drop_dups_subset: "set (drop_dups seen t) \<subseteq> set t"
  by (induction seen t rule: drop_dups.induct) auto

lemma drop_dups_keys: "fst ` set (drop_dups seen t) = fst ` set t - set seen"
  by (induction seen t rule: drop_dups.induct) auto

lemma drop_dups_distinct: "distinct (map fst (drop_dups seen t))"
proof (induction seen t rule: drop_dups.induct)
  case (1 seen)
  then show ?case by simp
next
  case (2 seen s x t)
  have "s \<notin> fst ` set (drop_dups (s # seen) t)"
    by (simp add: drop_dups_keys)
  with 2 show ?case by auto
qed

lemma drop_dups_find:
  "find (\<lambda>r. fst r = k) (drop_dups seen t) =
     (if k \<in> set seen then None else find (\<lambda>r. fst r = k) t)"
proof (induction seen t rule: drop_dups.induct)
  case (1 seen)
  then show ?case by simp
next
  case (2 seen s x t)
  then show ?case by (cases "s \<in> set seen") auto
qed

lemma find_distinct_key:
  "distinct (map fst t) \<Longrightarrow> r \<in> set t \<Longrightarrow> find (\<lambda>r'. fst r' = fst r) t = Some r"
  by (induction t) (auto simp: image_iff)

lemma drop_duplicates_first_find:
  assumes "r \<in> set (drop_duplicates_first t)"
  shows "find (\<lambda>r'. fst r' = fst r) t = Some r"
proof -
  have "find (\<lambda>r'. fst r' = fst r) (drop_dups [] t) = Some r"
    using assms drop_dups_distinct[of "[]" t]
    by (simp add: drop_duplicates_first_def find_distinct_key)
  then show ?thesis by (simp add: drop_dups_find)
qed

lemma find_first_sorted:
  assumes "sorted (map f xs)" "find P xs = Some r" "x \<in> set xs" "P x"
  shows "f r \<le> f x"
  using assms
proof (induction xs)
  case Nil
  then show ?case by simp
next
  case (Cons y ys)
  show ?case
  proof (cases "P y")
    case True
    then have "r = y" using Cons.prems(2) by simp
    then show ?thesis using Cons.prems(1,3) by auto
  next
    case False
    then have "find P ys = Some r" "x \<in> set ys" "sorted (map f ys)"
      using Cons.prems by auto
    then show ?thesis using Cons.IH Cons.prems(4) by blast
  qed
qed

lemma sub_date_duplicates_length: "length (sub_date_duplicates data) = length data"
  by (simp add: sub_date_duplicates_def Let_def)

lemma count_gt_1_iff:
  assumes "i < length ks"
  shows "(1 < length (filter (\<lambda>k'. k' = ks ! i) ks)) = (\<exists>j < length ks. j \<noteq> i \<and> ks ! j = ks ! i)"
proof -
  have "length (filter (\<lambda>k'. k' = ks ! i) ks) = card {j. j < length ks \<and> ks ! j = ks ! i}"
    by (simp add: length_filter_conv_card)
  moreover have fin: "finite {j. j < length ks \<and> ks ! j = ks ! i}" by simp
  moreover have mem: "i \<in> {j. j < length ks \<and> ks ! j = ks ! i}" using assms by simp
  ultimately show ?thesis
  proof -
    let ?S = "{j. j < length ks \<and> ks ! j = ks ! i}"
    have "(1 < card ?S) = (\<exists>j \<in> ?S. j \<noteq> i)"
    proof
      assume "1 < card ?S"
      then have "card (?S - {i}) > 0" using fin mem by (simp add: card_Diff_singleton)
      then have "?S - {i} \<noteq> {}" by (metis card.empty less_numeral_extra(3))
      then show "\<exists>j \<in> ?S. j \<noteq> i" by blast
    next
      assume "\<exists>j \<in> ?S. j \<noteq> i"
      then obtain j where "j \<in> ?S" "j \<noteq> i" by blast
      then have "{i, j} \<subseteq> ?S" using mem by blast
      then have "card {i, j} \<le> card ?S" using fin by (meson card_mono)
      then show "1 < card ?S" using \<open>j \<noteq> i\<close> by simp
    qed
    then show ?thesis
      using \<open>length (filter (\<lambda>k'. k' = ks ! i) ks) = card ?S\<close> by auto
  qed
qed

text \<open>
  Claim C7, as stated, fails in its first half: when the duplicates are dropped (line 577)
  the table has already been sorted by subject number and record identifier (line 447), so
  the row that is kept is the first in that order, not the first in the original order of
  the rows. Of two rows of subject 7 that arrive in a round's table with the record
  identifiers 5 and 2, in this order, the script keeps the second; keeping the first in
  original order would have kept the other one. In the demographics table the same two rows
  stop the run: there no row is dropped at all.
\<close>

theorem keep_first_after_sort_counterexample:
  "sort_and_drop_duplicates fst [(7, (5::int, ''first row'')), (7, (2, ''second row''))]
     = Inr [(7, (2, ''second row''))]
   \<and> drop_duplicates_first [(7, (5::int, ''first row'')), (7, (2, ''second row''))]
     = [(7, (5, ''first row''))]
   \<and> sort_and_assert_no_duplicates fst [(7, (5::int, ''first row'')), (7, (2, ''second row''))]
     = Inl AssertionError"
  by (simp add: sort_and_drop_duplicates_def index_and_sort_def drop_duplicates_first_def
        sort_and_assert_no_duplicates_def)

lemma sort_and_drop_duplicates_ok:
  fixes record_id :: "'a \<Rightarrow> 'r::linorder"
  assumes "sort_and_drop_duplicates record_id t = Inr out"
  shows "distinct (map fst out) \<and> fst ` set out = fst ` set t \<and> set out \<subseteq> set t
         \<and> (\<forall>r \<in> set out. \<forall>r' \<in> set t. fst r' = fst r \<longrightarrow> record_id (snd r) \<le> record_id (snd r'))"
proof -
  let ?f = "\<lambda>(s, x). (s, record_id x)"
  let ?sorted = "sort_key ?f t"
  have out: "out = drop_dups [] ?sorted"
    using assms
    by (auto simp: sort_and_drop_duplicates_def index_and_sort_def drop_duplicates_first_def
        split: if_splits)
  have 1: "distinct (map fst out)" unfolding out by (rule drop_dups_distinct)
  have 2: "fst ` set out = fst ` set t" unfolding out by (simp add: drop_dups_keys)
  have 3: "set out \<subseteq> set t" unfolding out using drop_dups_subset[of "[]" ?sorted] by simp
  have 4: "\<forall>r \<in> set out. \<forall>r' \<in> set t. fst r' = fst r \<longrightarrow> record_id (snd r) \<le> record_id (snd r')"
  proof (intro ballI impI)
    fix r r' assume r: "r \<in> set out" and r': "r' \<in> set t" and eq: "fst r' = fst r"
    have a: "find (\<lambda>q. fst q = fst r) ?sorted = Some r"
      using r unfolding out by (simp add: drop_duplicates_first_find drop_duplicates_first_def)
    have b: "sorted (map ?f ?sorted)" by (rule sorted_sort_key)
    have c: "r' \<in> set ?sorted" using r' by simp
    have "?f r \<le> ?f r'"
      by (rule find_first_sorted[OF b a c eq])
    then show "record_id (snd r) \<le> record_id (snd r')"
      using eq by (cases r; cases r') (auto simp: less_eq_prod_simp)
  qed
  from 1 2 3 4 show ?thesis by blast
qed

lemma reference_date_rows: "map fst (fst (reference_date output data)) = data"
  by (simp add: reference_date_def Let_def sub_date_duplicates_length)

lemma reference_date_problems:
  assumes "i < length data" "sub_date_duplicates data ! i"
  shows "data ! i \<in> set (snd (reference_date True data))"
proof -
  define idx where "idx = map (\<lambda>(dup, r). dup \<or> \<bar>todays_date r - redcap_timestamp r\<bar> > day_ns)
                    (zip (sub_date_duplicates data) data)"
  have len: "length idx = length data"
    by (simp add: idx_def sub_date_duplicates_length)
  have t: "idx ! i"
    using assms by (simp add: idx_def sub_date_duplicates_length)
  have "(idx ! i, data ! i) \<in> set (zip idx data)"
    using assms(1) len unfolding set_zip by auto
  then have "(True, data ! i) \<in> set (zip idx data)"
    using t by simp
  then have "(True, data ! i) \<in> set (filter fst (zip idx data))"
    by simp
  then have "data ! i \<in> set (map snd (filter fst (zip idx data)))"
    by (simp only: set_map) (rule image_eqI[where x = "(True, data ! i)"], simp_all)
  then show ?thesis
    by (simp add: reference_date_def Let_def idx_def)
qed

lemma sub_date_duplicates_nth:
  assumes "i < length data"
  shows "sub_date_duplicates data ! i =
           (\<exists>j < length data. j \<noteq> i \<and> sub_id (data ! j) = sub_id (data ! i)
               \<and> dt_normalize (todays_date (data ! j)) = dt_normalize (todays_date (data ! i)))"
proof -
  let ?ks = "map (\<lambda>r. (sub_id r, dt_normalize (todays_date r))) data"
  have i: "i < length ?ks" using assms by simp
  have "sub_date_duplicates data ! i = (1 < length (filter (\<lambda>k'. k' = ?ks ! i) ?ks))"
    using assms by (simp add: sub_date_duplicates_def Let_def)
  also have "\<dots> = (\<exists>j < length ?ks. j \<noteq> i \<and> ?ks ! j = ?ks ! i)"
    by (rule count_gt_1_iff[OF i])
  also have "\<dots> = (\<exists>j < length data. j \<noteq> i \<and> sub_id (data ! j) = sub_id (data ! i)
               \<and> dt_normalize (todays_date (data ! j)) = dt_normalize (todays_date (data ! i)))"
    using assms by auto
  finally show ?thesis .
qed

lemma distinct_map_insort_key:
  "distinct (map g (insort_key f x xs)) = (g x \<notin> g ` set xs \<and> distinct (map g xs))"
  by (induction xs) (auto simp: set_insort_key)

lemma distinct_map_sort_key: "distinct (map g (sort_key f xs)) = distinct (map g xs)"
  by (induction xs) (simp_all add: distinct_map_insort_key)

lemma sort_and_assert_no_duplicates_cases:
  fixes record_id :: "'a \<Rightarrow> 'r::linorder"
  shows "sort_and_assert_no_duplicates record_id demo =
           (if \<not> distinct (map (\<lambda>(s, x). record_id x) demo) \<or> \<not> distinct (map fst demo)
            then Inl AssertionError
            else Inr (sort_key (\<lambda>(s, x). (s, record_id x)) demo))"
  by (simp add: sort_and_assert_no_duplicates_def index_and_sort_def distinct_map_sort_key)

text \<open>
  Claim C7, amended. After reconciliation the table of each of the rounds 1 to 9 is sorted
  by subject number and record identifier and then keeps exactly one row for each subject
  number in it: the first in the sorted order, which is the subject's row with the least
  record identifier; the rest are dropped (and a table with a repeated record identifier
  stops the run with an assertion failure). \<^verbatim>\<open>drop_duplicates\<close> itself keeps the first
  row of each subject in the order of the table it is given. The demographics table, the
  tenth one-time table, is not deduplicated: it comes out sorted with all its rows when no
  subject has two rows in it, and a subject with two rows stops the run with an assertion
  failure. The daily table is not deduplicated by subject and calendar day: the
  reference-date section returns every row it was given, in the same order; a row is marked
  exactly when another row has the same subject and the same day, and every marked row is
  written to the problem list.
\<close>

theorem duplicates_first_sorted_and_daily_flagged:
  fixes record_id :: "'a \<Rightarrow> 'r::linorder"
    and t demo :: "(int \<times> 'a) list"
    and data :: "'b daily_scheme list"
  shows
  "(case sort_and_drop_duplicates record_id t of
      Inl e \<Rightarrow> e = AssertionError \<and> \<not> distinct (map (\<lambda>(s, x). record_id x) t)
    | Inr out \<Rightarrow>
        distinct (map fst out) \<and> fst ` set out = fst ` set t \<and> set out \<subseteq> set t
        \<and> (\<forall>r \<in> set out. \<forall>r' \<in> set t. fst r' = fst r \<longrightarrow> record_id (snd r) \<le> record_id (snd r')))
   \<and> (\<forall>r. r \<in> set (drop_duplicates_first t) \<longrightarrow> find (\<lambda>r'. fst r' = fst r) t = Some r)
   \<and> sort_and_assert_no_duplicates record_id demo =
        (if \<not> distinct (map (\<lambda>(s, x). record_id x) demo) \<or> \<not> distinct (map fst demo)
         then Inl AssertionError
         else Inr (sort_key (\<lambda>(s, x). (s, record_id x)) demo))
   \<and> map fst (fst (reference_date output data)) = data
   \<and> (\<forall>i < length data.
         sub_date_duplicates data ! i =
           (\<exists>j < length data. j \<noteq> i \<and> sub_id (data ! j) = sub_id (data ! i)
               \<and> dt_normalize (todays_date (data ! j)) = dt_normalize (todays_date (data ! i)))
         \<and> (sub_date_duplicates data ! i \<longrightarrow> data ! i \<in> set (snd (reference_date True data))))"
proof (intro conjI allI impI)
  show "case sort_and_drop_duplicates record_id t of
      Inl e \<Rightarrow> e = AssertionError \<and> \<not> distinct (map (\<lambda>(s, x). record_id x) t)
    | Inr out \<Rightarrow>
        distinct (map fst out) \<and> fst ` set out = fst ` set t \<and> set out \<subseteq> set t
        \<and> (\<forall>r \<in> set out. \<forall>r' \<in> set t. fst r' = fst r \<longrightarrow> record_id (snd r) \<le> record_id (snd r'))"
  proof (cases "sort_and_drop_duplicates record_id t")
    case (Inl e)
    then show ?thesis
      by (auto simp: sort_and_drop_duplicates_def index_and_sort_def split: if_splits)
  next
    case (Inr out)
    then show ?thesis using sort_and_drop_duplicates_ok[OF Inr] by simp
  qed
next
  fix r assume "r \<in> set (drop_duplicates_first t)"
  then show "find (\<lambda>r'. fst r' = fst r) t = Some r" by (rule drop_duplicates_first_find)
next
  show "sort_and_assert_no_duplicates record_id demo =
        (if \<not> distinct (map (\<lambda>(s, x). record_id x) demo) \<or> \<not> distinct (map fst demo)
         then Inl AssertionError
         else Inr (sort_key (\<lambda>(s, x). (s, record_id x)) demo))"
    by (rule sort_and_assert_no_duplicates_cases)
next
  show "map fst (fst (reference_date output data)) = data" by (rule reference_date_rows)
next
  fix i assume "i < length data"
  then show "sub_date_duplicates data ! i =
           (\<exists>j < length data. j \<noteq> i \<and> sub_id (data ! j) = sub_id (data ! i)
               \<and> dt_normalize (todays_date (data ! j)) = dt_normalize (todays_date (data ! i)))"
    by (rule sub_date_duplicates_nth)
next
  fix i assume "i < length data" "sub_date_duplicates data ! i"
  then show "data ! i \<in> set (snd (reference_date True data))" by (rule reference_date_problems)
qed

text \<open>
  The theorem of claim C7 at a table of one of the rounds with two rows of one subject, at
  the same table taken as the demographics table and at a demographics table without a
  duplicate, and at a daily table in which subject 7 has two rows on one day.
\<close>

theorem duplicates_first_sorted_and_daily_flagged_witness:
  "sort_and_drop_duplicates fst [(7, (5::int, ''a'')), (7, (2, ''b'')), (3, (9, ''c''))]
     = Inr [(3, (9, ''c'')), (7, (2, ''b''))]
   \<and> sort_and_assert_no_duplicates fst [(7, (5::int, ''a'')), (7, (2, ''b'')), (3, (9, ''c''))]
     = Inl AssertionError
   \<and> sort_and_assert_no_duplicates fst [(7, (5::int, ''a'')), (3, (9, ''c''))]
     = Inr [(3, (9, ''c'')), (7, (5, ''a''))]
   \<and> map fst (fst (reference_date True
        [\<lparr>sub_id = 7, unique_id = ''1L'', todays_date = 18400 * day_ns + 9 * 3600000000000,
           redcap_timestamp = 18400 * day_ns + 9 * 3600000000000\<rparr>,
         \<lparr>sub_id = 8, unique_id = ''2L'', todays_date = 18400 * day_ns + 9 * 3600000000000,
           redcap_timestamp = 18400 * day_ns + 9 * 3600000000000\<rparr>,
         \<lparr>sub_id = 7, unique_id = ''3S'', todays_date = 18400 * day_ns + 21 * 3600000000000,
           redcap_timestamp = 18400 * day_ns + 21 * 3600000000000\<rparr>]))
     = [\<lparr>sub_id = 7, unique_id = ''1L'', todays_date = 18400 * day_ns + 9 * 3600000000000,
           redcap_timestamp = 18400 * day_ns + 9 * 3600000000000\<rparr>,
         \<lparr>sub_id = 8, unique_id = ''2L'', todays_date = 18400 * day_ns + 9 * 3600000000000,
           redcap_timestamp = 18400 * day_ns + 9 * 3600000000000\<rparr>,
         \<lparr>sub_id = 7, unique_id = ''3S'', todays_date = 18400 * day_ns + 21 * 3600000000000,
           redcap_timestamp = 18400 * day_ns + 21 * 3600000000000\<rparr>]
   \<and> sub_date_duplicates
        [\<lparr>sub_id = 7, unique_id = ''1L'', todays_date = 18400 * day_ns + 9 * 3600000000000,
           redcap_timestamp = 18400 * day_ns + 9 * 3600000000000\<rparr>,
         \<lparr>sub_id = 8, unique_id = ''2L'', todays_date = 18400 * day_ns + 9 * 3600000000000,
           redcap_timestamp = 18400 * day_ns + 9 * 3600000000000\<rparr>,
         \<lparr>sub_id = 7, unique_id = ''3S'', todays_date = 18400 * day_ns + 21 * 3600000000000,
           redcap_timestamp = 18400 * day_ns + 21 * 3600000000000\<rparr>]
     = [True, False, True]
   \<and> snd (reference_date True
        [\<lparr>sub_id = 7, unique_id = ''1L'', todays_date = 18400 * day_ns + 9 * 3600000000000,
           redcap_timestamp = 18400 * day_ns + 9 * 3600000000000\<rparr>,
         \<lparr>sub_id = 8, unique_id = ''2L'', todays_date = 18400 * day_ns + 9 * 3600000000000,
           redcap_timestamp = 18400 * day_ns + 9 * 3600000000000\<rparr>,
         \<lparr>sub_id = 7, unique_id = ''3S'', todays_date = 18400 * day_ns + 21 * 3600000000000,
           redcap_timestamp = 18400 * day_ns + 21 * 3600000000000\<rparr>])
     = [\<lparr>sub_id = 7, unique_id = ''1L'', todays_date = 18400 * day_ns + 9 * 3600000000000,
           redcap_timestamp = 18400 * day_ns + 9 * 3600000000000\<rparr>,
         \<lparr>sub_id = 7, unique_id = ''3S'', todays_date = 18400 * day_ns + 21 * 3600000000000,
           redcap_timestamp = 18400 * day_ns + 21 * 3600000000000\<rparr>]"
proof -
  let ?d1 = "\<lparr>sub_id = 7, unique_id = ''1L'', todays_date = 18400 * day_ns + 9 * 3600000000000,
           redcap_timestamp = 18400 * day_ns + 9 * 3600000000000\<rparr>"
  let ?d2 = "\<lparr>sub_id = 8, unique_id = ''2L'', todays_date = 18400 * day_ns + 9 * 3600000000000,
           redcap_timestamp = 18400 * day_ns + 9 * 3600000000000\<rparr>"
  let ?d3 = "\<lparr>sub_id = 7, unique_id = ''3S'', todays_date = 18400 * day_ns + 21 * 3600000000000,
           redcap_timestamp = 18400 * day_ns + 21 * 3600000000000\<rparr>"
  let ?t = "[(7, (5::int, ''a'')), (7, (2, ''b'')), (3, (9, ''c''))]"
  have 1: "sort_and_drop_duplicates fst ?t = Inr [(3, (9, ''c'')), (7, (2, ''b''))]"
    by (simp add: sort_and_drop_duplicates_def index_and_sort_def drop_duplicates_first_def)
  have 2: "map fst (fst (reference_date True [?d1, ?d2, ?d3])) = [?d1, ?d2, ?d3]"
    by (rule duplicates_first_sorted_and_daily_flagged
              [of fst ?t ?t True "[?d1, ?d2, ?d3]",
               THEN conjunct2, THEN conjunct2, THEN conjunct2, THEN conjunct1])
  have 3: "sub_date_duplicates [?d1, ?d2, ?d3] = [True, False, True]"
    by (simp add: sub_date_duplicates_def dt_normalize_def day_ns_def)
  have 4: "snd (reference_date True [?d1, ?d2, ?d3]) = [?d1, ?d3]"
    unfolding reference_date_def Let_def 3 by (simp add: day_ns_def)
  have 5: "sort_and_assert_no_duplicates fst ?t = Inl AssertionError"
    by (simp add: sort_and_assert_no_duplicates_def index_and_sort_def)
  have 6: "sort_and_assert_no_duplicates fst [(7, (5::int, ''a'')), (3, (9, ''c''))]
     = Inr [(3, (9, ''c'')), (7, (5, ''a''))]"
    by (simp add: sort_and_assert_no_duplicates_def index_and_sort_def)
  show ?thesis
    by (intro conjI) (rule 1, rule 5, rule 6, rule 2, rule 3, rule 4)
qed

section \<open>Properties of the plausibility limits\<close>

text \<open>
  Claim C8, as stated, fails: the limit in line 656 is 48, not 24. A report of 30 alcoholic
  drinks is above 24 and stays in the cleaned data.
\<close>

theorem alcohol_bev_30_counterexample:
  "alcohol_bev (remove_impossible_values
      \<lparr>sleepdiary_sleeplatency = Some 10, sleepdiary_naptime = Some 0, night_awakening_time = Some 5,
       socialize_min = None, alcohol_bev = Some 30\<rparr>) = Some 30
   \<and> (24::rat) < 30"
  by (simp add: remove_impossible_values_def nan_above_def)

text \<open>
  Claim C8, amended. Any reported number of alcoholic drinks greater than 48 is set to
  missing, not clamped to a boundary value; a number up to 48 is kept as it is, and a
  missing one stays missing. The replacement raises nothing: the function returns a row
  for every row.
\<close>

theorem alcohol_bev_above_48_missing:
  "alcohol_bev (remove_impossible_values r) =
     (case alcohol_bev r of
        None \<Rightarrow> None
      | Some v \<Rightarrow> if v > 48 then None else Some v)
   \<and> alcohol_bev (remove_impossible_values (r\<lparr>alcohol_bev := Some 49\<rparr>)) = None
   \<and> alcohol_bev (remove_impossible_values (r\<lparr>alcohol_bev := Some 48\<rparr>)) = Some 48
   \<and> alcohol_bev (remove_impossible_values (r\<lparr>alcohol_bev := Some 25\<rparr>)) = Some 25"
  by (simp add: remove_impossible_values_def nan_above_def)


section \<open>Properties of the scale scores\<close>

lemma sum_skipna_False_None: "None \<in> set cells \<Longrightarrow> sum_skipna_False cells = None"
  by (induction cells) (auto split: option.splits)

lemma sum_skipna_False_Some:
  "None \<notin> set cells \<Longrightarrow> sum_skipna_False cells = Some (sum_list (map the cells))"
proof (induction cells)
  case Nil
  then show ?case by simp
next
  case (Cons cell cells)
  then obtain v where "cell = Some v" by (cases cell) auto
  with Cons show ?case by simp
qed

text \<open>
  Claim C9, as stated, fails for the sleep-disturbance component of the PSQI, one of the
  two scales the claim cites: a missing item \<^verbatim>\<open>psqi_5j\<close> is replaced by 0 before the sum
  (line 1388), so with the eight other items at 1 the record gets the score 1 (the band of
  the sum 8), not a missing score.
\<close>

theorem psqi_5j_imputed_counterexample:
  "PSQIDISTB \<lparr>psqi_5b_to_5i = [Some 1, Some 1, Some 1, Some 1, Some 1, Some 1, Some 1, Some 1],
              psqi_5j = None, psqi_5j2 = Some ''noise''\<rparr> = Inr (Some 1)
   \<and> PSQIDISTB \<lparr>psqi_5b_to_5i = [Some 0, Some 0, Some 0, Some 0, Some 0, Some 0, Some 0, Some 0],
              psqi_5j = None, psqi_5j2 = None\<rparr> = Inr (Some 0)"
  by (simp add: PSQIDISTB_def)

text \<open>
  Claim C9, amended. A sum with \<^verbatim>\<open>skipna=False\<close> is missing as soon as one summed cell is
  missing, and is the plain sum otherwise: so the positive-affect scale is missing when any
  one of its ten items is, and the PSQI sleep-disturbance component is missing when any of
  the items before \<^verbatim>\<open>psqi_5j\<close> is. The item \<^verbatim>\<open>psqi_5j\<close> is the exception: when it, or the
  free text that goes with it, is missing, it counts as 0 and the component is not missing.
\<close>

theorem summed_scale_missing_item:
  "(None \<in> set cells \<longrightarrow> sum_skipna_False cells = None)
   \<and> (None \<notin> set cells \<longrightarrow> sum_skipna_False cells = Some (sum_list (map the cells)))
   \<and> (panas_interested3 r = None \<or> panas_excited3 r = None \<or> panas_strong3 r = None
        \<or> panas_enthusiastic3 r = None \<or> panas_proud3 r = None \<or> panas_alert3 r = None
        \<or> panas_inspired3 r = None \<or> panas_determined3 r = None \<or> panas_attentive3 r = None
        \<or> panas_active3 r = None \<longrightarrow> PANAS_PA r = None)
   \<and> (None \<in> set (psqi_5b_to_5i p) \<longrightarrow> PSQIDISTB p = Inr None)
   \<and> (None \<notin> set (psqi_5b_to_5i p) \<and> (psqi_5j p = None \<or> psqi_5j2 p = None)
        \<longrightarrow> PSQIDISTB p \<noteq> Inr None
            \<and> sum_skipna_False (psqi_5b_to_5i p @ [Some 0]) = Some (sum_list (map the (psqi_5b_to_5i p))))"
proof (intro conjI impI)
  assume "None \<in> set cells"
  then show "sum_skipna_False cells = None" by (rule sum_skipna_False_None)
next
  assume "None \<notin> set cells"
  then show "sum_skipna_False cells = Some (sum_list (map the cells))" by (rule sum_skipna_False_Some)
next
  assume "panas_interested3 r = None \<or> panas_excited3 r = None \<or> panas_strong3 r = None
        \<or> panas_enthusiastic3 r = None \<or> panas_proud3 r = None \<or> panas_alert3 r = None
        \<or> panas_inspired3 r = None \<or> panas_determined3 r = None \<or> panas_attentive3 r = None
        \<or> panas_active3 r = None"
  then have "None \<in> set [panas_interested3 r, panas_excited3 r, panas_strong3 r, panas_enthusiastic3 r,
        panas_proud3 r, panas_alert3 r, panas_inspired3 r, panas_determined3 r,
        panas_attentive3 r, panas_active3 r]"
    by (simp only: list.set insert_iff empty_iff) metis
  then show "PANAS_PA r = None"
    unfolding PANAS_PA_def by (rule sum_skipna_False_None)
next
  assume "None \<in> set (psqi_5b_to_5i p)"
  then have "sum_skipna_False (psqi_5b_to_5i p @ [if psqi_5j2 p = None \<or> psqi_5j p = None then Some 0 else psqi_5j p]) = None"
    by (intro sum_skipna_False_None) simp
  then show "PSQIDISTB p = Inr None"
    by (simp add: PSQIDISTB_def Let_def)
next
  assume a: "None \<notin> set (psqi_5b_to_5i p) \<and> (psqi_5j p = None \<or> psqi_5j2 p = None)"
  then have j: "(if psqi_5j2 p = None \<or> psqi_5j p = None then Some 0 else psqi_5j p) = Some 0"
    by auto
  have s: "sum_skipna_False (psqi_5b_to_5i p @ [Some 0]) = Some (sum_list (map the (psqi_5b_to_5i p)))"
    using a by (subst sum_skipna_False_Some) auto
  show "PSQIDISTB p \<noteq> Inr None"
    by (simp add: PSQIDISTB_def Let_def j s)
  show "sum_skipna_False (psqi_5b_to_5i p @ [Some 0]) = Some (sum_list (map the (psqi_5b_to_5i p)))"
    by (rule s)
qed

text \<open>
  The theorem of claim C9 at a ten-item record whose third item is missing, at a PSQI record
  with a missing middle item, and at one where only \<^verbatim>\<open>psqi_5j\<close> is missing.
\<close>

theorem summed_scale_missing_item_witness:
  "None \<in> set [Some 3, None, Some (2::rat)]
   \<and> sum_skipna_False [Some 3, None, Some 2] = None
   \<and> None \<notin> set [Some 3, Some (4::rat)]
   \<and> sum_skipna_False [Some 3, Some 4] = Some 7
   \<and> panas_strong3 \<lparr>panas_interested3 = Some 4, panas_excited3 = Some 2, panas_strong3 = None,
         panas_enthusiastic3 = Some 3, panas_proud3 = Some 3, panas_alert3 = Some 5,
         panas_inspired3 = Some 1, panas_determined3 = Some 2, panas_attentive3 = Some 4,
         panas_active3 = Some 3\<rparr> = None
   \<and> PANAS_PA \<lparr>panas_interested3 = Some 4, panas_excited3 = Some 2, panas_strong3 = None,
         panas_enthusiastic3 = Some 3, panas_proud3 = Some 3, panas_alert3 = Some 5,
         panas_inspired3 = Some 1, panas_determined3 = Some 2, panas_attentive3 = Some 4,
         panas_active3 = Some 3\<rparr> = None
   \<and> PSQIDISTB \<lparr>psqi_5b_to_5i = [Some 1, None, Some 1], psqi_5j = Some 2, psqi_5j2 = Some ''noise''\<rparr>
       = Inr None
   \<and> PSQIDISTB \<lparr>psqi_5b_to_5i = [Some 1, Some 3, Some 1], psqi_5j = None, psqi_5j2 = Some ''noise''\<rparr>
       \<noteq> Inr None"
proof -
  let ?r = "\<lparr>panas_interested3 = Some 4, panas_excited3 = Some 2, panas_strong3 = None,
         panas_enthusiastic3 = Some 3, panas_proud3 = Some 3, panas_alert3 = Some 5,
         panas_inspired3 = Some 1, panas_determined3 = Some 2, panas_attentive3 = Some 4,
         panas_active3 = Some 3\<rparr>"
  let ?p1 = "\<lparr>psqi_5b_to_5i = [Some 1, None, Some 1], psqi_5j = Some 2, psqi_5j2 = Some ''noise''\<rparr>"
  let ?p2 = "\<lparr>psqi_5b_to_5i = [Some 1, Some 3, Some 1], psqi_5j = None, psqi_5j2 = Some ''noise''\<rparr>"
  have h1: "None \<in> set [Some 3, None, Some (2::rat)]" by simp
  have h2: "None \<notin> set [Some 3, Some (4::rat)]" by simp
  have h3: "panas_strong3 ?r = None" by simp
  have h4: "None \<in> set (psqi_5b_to_5i ?p1)" by simp
  have h5: "None \<notin> set (psqi_5b_to_5i ?p2) \<and> (psqi_5j ?p2 = None \<or> psqi_5j2 ?p2 = None)" by simp
  note a = summed_scale_missing_item[of "[Some 3, None, Some 2]" ?r ?p1]
  note b = summed_scale_missing_item[of "[Some 3, Some 4]" ?r ?p2]
  have c1: "sum_skipna_False [Some 3, None, Some 2] = None"
    using a h1 by blast
  have c2: "sum_skipna_False [Some 3, Some 4] = Some 7"
    using b h2 by simp
  have c3: "PANAS_PA ?r = None"
    using a h3 by blast
  have c4: "PSQIDISTB ?p1 = Inr None"
    using a h4 by blast
  have c5: "PSQIDISTB ?p2 \<noteq> Inr None"
    using b h5 by blast
  show ?thesis
    by (intro conjI) (rule h1, rule c1, rule h2, rule c2, rule h3, rule c3, rule c4, rule c5)
qed


section \<open>Properties of the derived sleep variables\<close>









end
